theory Spec2Isabelle
  imports Complex_Main "HOL-Library.AList" "HOL-Library.Log_Nat" "HOL-Library.Multiset"
begin

section \<open>Pagination component\<close>

subsection \<open>Number to string\<close>

text \<open>
  A JavaScript number is a finite number, \<open>NaN\<close>, \<open>Infinity\<close> or \<open>-Infinity\<close>; the
  finite doubles are among the rationals.

  \<open>String(x)\<close>: for an integer below \<open>2\<^sup>5\<^sup>3\<close> in absolute value the decimal digits, with
  a leading minus sign for a negative number; the three names for the values that are
  not finite. The text of any other finite number (a fraction, or a number from \<open>2\<^sup>5\<^sup>3\<close>
  on, which JavaScript prints with the fewest digits that identify the double, in
  exponential notation from \<open>10\<^sup>2\<^sup>1\<close> on) is the parameter \<open>numText\<close>.
\<close>

datatype number = Num rat | NaN | Infinity | NegInfinity

definition digitChar :: "nat \<Rightarrow> char" where
  "digitChar d = ''0123456789'' ! (d mod 10)"

fun natDigits :: "nat \<Rightarrow> string" where
  "natDigits n = (if n < 10 then [digitChar n] else natDigits (n div 10) @ [digitChar n])"

declare natDigits.simps [simp del]

definition String :: "(rat \<Rightarrow> string) \<Rightarrow> number \<Rightarrow> string" where
  "String numText x =
     (case x of
        Num r \<Rightarrow>
          if r = of_int \<lfloor>r\<rfloor> \<and> \<bar>r\<bar> < 2 ^ 53
          then (if r < 0 then CHR ''-'' # natDigits (nat (- \<lfloor>r\<rfloor>)) else natDigits (nat \<lfloor>r\<rfloor>))
          else numText r
      | NaN \<Rightarrow> ''NaN''
      | Infinity \<Rightarrow> ''Infinity''
      | NegInfinity \<Rightarrow> ''-Infinity'')"

subsection \<open>URLSearchParams\<close>

text \<open>
  A \<open>Record<string, string>\<close> and a \<open>URLSearchParams\<close> object are both modelled by
  their entries in enumeration order. Strings are byte strings (the UTF-8 bytes the
  serialiser works on).

  \<open>toString\<close> is the application/x-www-form-urlencoded serialiser: a space becomes
  \<open>+\<close>, the bytes of \<open>*-._\<close>, digits and ASCII letters stand for themselves, every other
  byte is percent-encoded with two upper-case hexadecimal digits; name and value are
  joined by \<open>=\<close> and the entries by \<open>&\<close>.
\<close>

type_synonym params = "(string \<times> string) list"

definition hexChar :: "nat \<Rightarrow> char" where
  "hexChar d = ''0123456789ABCDEF'' ! (d mod 16)"

definition urlSafe :: "char \<Rightarrow> bool" where
  "urlSafe c \<longleftrightarrow> c \<in> set (''*-._0123456789'' @
      ''ABCDEFGHIJKLMNOPQRSTUVWXYZ'' @ ''abcdefghijklmnopqrstuvwxyz'')"

definition encodeByte :: "char \<Rightarrow> string" where
  "encodeByte c =
     (if c = CHR '' '' then ''+''
      else if urlSafe c then [c]
      else [CHR ''%'', hexChar (of_char c div 16), hexChar (of_char c mod 16)])"

definition urlencode :: "string \<Rightarrow> string" where
  "urlencode s = concat (map encodeByte s)"

fun joinWith :: "char \<Rightarrow> string list \<Rightarrow> string" where
  "joinWith sep [] = []"
| "joinWith sep [s] = s"
| "joinWith sep (s # t # ss) = s @ sep # joinWith sep (t # ss)"

definition toString :: "params \<Rightarrow> string" where
  "toString ps = joinWith CHR ''&'' (map (\<lambda>(k, v). urlencode k @ CHR ''='' # urlencode v) ps)"

subsection \<open>getPageUrl\<close>

text \<open>
  \<open>{ ...searchParams, page: String(page) }\<close> copies the entries of \<open>searchParams\<close> and
  then sets \<open>page\<close>: an existing \<open>page\<close> entry keeps its place and gets the new value,
  otherwise the entry is added at the end. \<open>pageParams\<close> is the
  \<open>URLSearchParams\<close> object built from it.
\<close>

definition pageParams :: "(rat \<Rightarrow> string) \<Rightarrow> params \<Rightarrow> number \<Rightarrow> params" where
  "pageParams numText searchParams page =
     AList.update ''page'' (String numText page) searchParams"

definition getPageUrl ::
    "(rat \<Rightarrow> string) \<Rightarrow> string \<Rightarrow> params \<Rightarrow> number \<Rightarrow> string" where
  "getPageUrl numText baseUrl searchParams page =
     baseUrl @ CHR ''?'' # toString (pageParams numText searchParams page)"

subsection \<open>getVisiblePages\<close>

datatype page_token = Page int | Dots

definition delta :: int where
  "delta = 2"

text \<open>
  The \<open>for\<close> loop of \<open>getVisiblePages\<close>: \<open>i\<close> runs from its start value while
  \<open>i <= Math.min(totalPages - 1, currentPage + delta)\<close>, pushing \<open>i\<close> on \<open>range\<close> (here \<open>pageRange\<close>).
\<close>

function rangeLoop :: "int \<Rightarrow> int \<Rightarrow> int \<Rightarrow> int list \<Rightarrow> int list" where
  "rangeLoop currentPage totalPages i pageRange =
     (if i \<le> min (totalPages - 1) (currentPage + delta)
      then rangeLoop currentPage totalPages (i + 1) (pageRange @ [i])
      else pageRange)"
  by pat_completeness auto
termination
  by (relation "measure (\<lambda>(c, t, i, r). nat (min (t - 1) (c + delta) + 1 - i))") auto

declare rangeLoop.simps [simp del]

definition getVisiblePages :: "int \<Rightarrow> int \<Rightarrow> page_token list" where
  "getVisiblePages currentPage totalPages =
     (let pageRange = rangeLoop currentPage totalPages (max 2 (currentPage - delta)) [];
          rangeWithDots = (if currentPage - delta > 2 then [Page 1, Dots] else [Page 1]);
          rangeWithDots = rangeWithDots @ map Page pageRange;
          rangeWithDots = (if currentPage + delta < totalPages - 1
                           then rangeWithDots @ [Dots, Page totalPages]
                           else rangeWithDots @ [Page totalPages])
      in rangeWithDots)"

subsection \<open>The component\<close>

text \<open>
  What \<open>Pagination\<close> returns: \<open>None\<close> for \<open>null\<close> (nothing is rendered), otherwise the
  navigation element with its previous link, one item per visible token and its next
  link. Styling classes are left out.
\<close>

datatype nav_item = Ellipsis | PageLink string int bool

record nav =
  prevHref :: string
  prevDisabled :: bool
  navItems :: "nav_item list"
  nextHref :: string
  nextDisabled :: bool

definition renderToken ::
    "(rat \<Rightarrow> string) \<Rightarrow> string \<Rightarrow> params \<Rightarrow> int \<Rightarrow> page_token \<Rightarrow> nav_item" where
  "renderToken numText baseUrl searchParams currentPage tok =
     (case tok of
        Dots \<Rightarrow> Ellipsis
      | Page pageNumber \<Rightarrow>
          PageLink (getPageUrl numText baseUrl searchParams (Num (of_int pageNumber))) pageNumber
            (pageNumber = currentPage))"

definition Pagination ::
    "(rat \<Rightarrow> string) \<Rightarrow> int \<Rightarrow> int \<Rightarrow> string \<Rightarrow> params \<Rightarrow> nav option" where
  "Pagination numText currentPage totalPages baseUrl searchParams =
     (if totalPages \<le> 1 then None
      else
        let visiblePages = getVisiblePages currentPage totalPages
        in Some \<lparr> prevHref =
                    getPageUrl numText baseUrl searchParams (Num (of_int (currentPage - 1))),
                  prevDisabled = (currentPage \<le> 1),
                  navItems =
                    map (renderToken numText baseUrl searchParams currentPage) visiblePages,
                  nextHref =
                    getPageUrl numText baseUrl searchParams (Num (of_int (currentPage + 1))),
                  nextDisabled = (currentPage \<ge> totalPages) \<rparr>)"

section \<open>JavaScript library functions used by the dashboard\<close>

subsection \<open>Dates\<close>

text \<open>
  A \<open>Date\<close> object is its time value: milliseconds since the epoch, an \<open>int\<close>.
  The functions below are those of the ECMAScript specification of \<open>Date\<close>
  (section "Time Values and Time Range" and the \<open>Date.prototype\<close> methods), under the
  names the specification gives them. Invalid dates and \<open>TimeClip\<close> are outside the
  model.
\<close>

definition msPerDay :: int where "msPerDay = 86400000"
definition msPerHour :: int where "msPerHour = 3600000"
definition msPerMinute :: int where "msPerMinute = 60000"
definition msPerSecond :: int where "msPerSecond = 1000"

definition Day :: "int \<Rightarrow> int" where
  "Day t = t div msPerDay"

definition TimeWithinDay :: "int \<Rightarrow> int" where
  "TimeWithinDay t = t mod msPerDay"

definition DaysInYear :: "int \<Rightarrow> int" where
  "DaysInYear y =
     (if y mod 4 \<noteq> 0 then 365
      else if y mod 100 \<noteq> 0 then 366
      else if y mod 400 \<noteq> 0 then 365
      else 366)"

definition DayFromYear :: "int \<Rightarrow> int" where
  "DayFromYear y =
     365 * (y - 1970) + (y - 1969) div 4 - (y - 1901) div 100 + (y - 1601) div 400"

definition TimeFromYear :: "int \<Rightarrow> int" where
  "TimeFromYear y = msPerDay * DayFromYear y"

text \<open>
  \<open>YearFromTime(t)\<close> is the largest \<open>y\<close> with \<open>TimeFromYear(y) \<le> t\<close>. It is found by
  a search from an estimate: down while the year starts after the day, up while the next
  year starts on or before it.
\<close>

function yearSearch :: "int \<Rightarrow> int \<Rightarrow> int" where
  "yearSearch d y =
     (if d < DayFromYear y then yearSearch d (y - 1)
      else if DayFromYear (y + 1) \<le> d then yearSearch d (y + 1)
      else y)"
  by pat_completeness auto
termination
proof (relation "measure (\<lambda>(d, y).
    if d < DayFromYear y then nat (DayFromYear y - d)
    else if DayFromYear (y + 1) \<le> d then nat (d - DayFromYear (y + 1)) + 1
    else 0)")
  have mono: "DayFromYear y < DayFromYear (y + 1)" for y
  proof -
    have 1: "(y - 1969) div 4 \<le> (y + 1 - 1969) div 4"
      by (rule zdiv_mono1) simp_all
    have 2: "(y - 1601) div 400 \<le> (y + 1 - 1601) div 400"
      by (rule zdiv_mono1) simp_all
    have "(y + 1 - 1901) div 100 \<le> (y - 1901 + 100) div 100"
      by (rule zdiv_mono1) simp_all
    then have 3: "(y + 1 - 1901) div 100 \<le> (y - 1901) div 100 + 1"
      by simp
    have gen: "a \<le> a' \<Longrightarrow> c \<le> c' \<Longrightarrow> b' \<le> b + 1 \<Longrightarrow>
        365 * (y - 1970) + a - b + c < 365 * (y + 1 - 1970) + a' - b' + c'"
      for a a' b b' c c' :: int
      by (simp add: algebra_simps)
    show ?thesis
      unfolding DayFromYear_def by (rule gen [OF 1 2 3])
  qed
  {
    fix d y :: int
    assume a: "d < DayFromYear y"
    have "DayFromYear (y - 1) < DayFromYear y"
      using mono [of "y - 1"] by simp
    with a show "((d, y - 1), (d, y)) \<in> measure (\<lambda>(d, y).
      if d < DayFromYear y then nat (DayFromYear y - d)
      else if DayFromYear (y + 1) \<le> d then nat (d - DayFromYear (y + 1)) + 1
      else 0)"
      by simp
  next
    fix d y :: int
    assume a: "\<not> d < DayFromYear y" "DayFromYear (y + 1) \<le> d"
    have "DayFromYear (y + 1) < DayFromYear (y + 1 + 1)"
      by (rule mono)
    with a show "((d, y + 1), (d, y)) \<in> measure (\<lambda>(d, y).
      if d < DayFromYear y then nat (DayFromYear y - d)
      else if DayFromYear (y + 1) \<le> d then nat (d - DayFromYear (y + 1)) + 1
      else 0)"
      by simp
  }
qed simp

declare yearSearch.simps [simp del]

definition YearFromTime :: "int \<Rightarrow> int" where
  "YearFromTime t = yearSearch (Day t) (1970 + Day t div 365)"

definition InLeapYear :: "int \<Rightarrow> int" where
  "InLeapYear t = (if DaysInYear (YearFromTime t) = 365 then 0 else 1)"

definition DayWithinYear :: "int \<Rightarrow> int" where
  "DayWithinYear t = Day t - DayFromYear (YearFromTime t)"

definition MonthFromTime :: "int \<Rightarrow> int" where
  "MonthFromTime t =
     (let d = DayWithinYear t; l = InLeapYear t in
      if d < 31 then 0
      else if d < 59 + l then 1
      else if d < 90 + l then 2
      else if d < 120 + l then 3
      else if d < 151 + l then 4
      else if d < 181 + l then 5
      else if d < 212 + l then 6
      else if d < 243 + l then 7
      else if d < 273 + l then 8
      else if d < 304 + l then 9
      else if d < 334 + l then 10
      else 11)"

definition DateFromTime :: "int \<Rightarrow> int" where
  "DateFromTime t =
     (let d = DayWithinYear t; l = InLeapYear t; m = MonthFromTime t in
      if m = 0 then d + 1
      else if m = 1 then d - 30
      else if m = 2 then d - 58 - l
      else if m = 3 then d - 89 - l
      else if m = 4 then d - 119 - l
      else if m = 5 then d - 150 - l
      else if m = 6 then d - 180 - l
      else if m = 7 then d - 211 - l
      else if m = 8 then d - 242 - l
      else if m = 9 then d - 272 - l
      else if m = 10 then d - 303 - l
      else d - 333 - l)"

definition MakeTime :: "int \<Rightarrow> int \<Rightarrow> int \<Rightarrow> int \<Rightarrow> int" where
  "MakeTime hour minute sec ms =
     hour * msPerHour + minute * msPerMinute + sec * msPerSecond + ms"

text \<open>
  \<open>MakeDay(year, month, date)\<close>: the day number of the first day of month
  \<open>month mod 12\<close> of year \<open>year + floor(month / 12)\<close>, plus \<open>date - 1\<close>. The first day of
  a month is the first day of its year plus the lengths of the months before it.
\<close>

definition daysBeforeMonth :: "int \<Rightarrow> int \<Rightarrow> int" where
  "daysBeforeMonth mn l =
     (if mn = 0 then 0
      else if mn = 1 then 31
      else if mn = 2 then 59 + l
      else if mn = 3 then 90 + l
      else if mn = 4 then 120 + l
      else if mn = 5 then 151 + l
      else if mn = 6 then 181 + l
      else if mn = 7 then 212 + l
      else if mn = 8 then 243 + l
      else if mn = 9 then 273 + l
      else if mn = 10 then 304 + l
      else 334 + l)"

definition MakeDay :: "int \<Rightarrow> int \<Rightarrow> int \<Rightarrow> int" where
  "MakeDay year month date =
     (let ym = year + month div 12;
          mn = month mod 12;
          l = (if DaysInYear ym = 365 then 0 else 1)
      in DayFromYear ym + daysBeforeMonth mn l + date - 1)"

definition MakeDate :: "int \<Rightarrow> int \<Rightarrow> int" where
  "MakeDate day time = day * msPerDay + time"

text \<open>
  The local time zone of the server is a parameter: the offset from UTC (in
  milliseconds) in force at the beginning of time, and the clock changes in the order
  of their instants, each with the offset in force from then on. A zone without
  changes has a constant offset; a zone with daylight saving time has two changes a
  year.

  \<open>LocalTZA(t, isUTC)\<close> is the offset at \<open>t\<close>. For a UTC time value it is the offset
  of the last change at or before \<open>t\<close>. For a local time value it is the offset under
  which the local time occurs; a local time that a clock change repeats or skips is
  read with the offset before the change.
\<close>

type_synonym zone = "int \<times> (int \<times> int) list"

fun offsetAt :: "int \<Rightarrow> (int \<times> int) list \<Rightarrow> int \<Rightarrow> int" where
  "offsetAt off [] t = off"
| "offsetAt off ((instant, off') # changes) t =
     (if t < instant then off else offsetAt off' changes t)"

fun offsetOfLocal :: "int \<Rightarrow> (int \<times> int) list \<Rightarrow> int \<Rightarrow> int" where
  "offsetOfLocal off [] t = off"
| "offsetOfLocal off ((instant, off') # changes) t =
     (if t - off < instant then off
      else if t - off' < instant then off
      else offsetOfLocal off' changes t)"

definition LocalTZA :: "zone \<Rightarrow> int \<Rightarrow> bool \<Rightarrow> int" where
  "LocalTZA z t isUTC =
     (if isUTC then offsetAt (fst z) (snd z) t else offsetOfLocal (fst z) (snd z) t)"

definition LocalTime :: "zone \<Rightarrow> int \<Rightarrow> int" where
  "LocalTime z t = t + LocalTZA z t True"

definition UTC :: "zone \<Rightarrow> int \<Rightarrow> int" where
  "UTC z t = t - LocalTZA z t False"

definition getDate :: "zone \<Rightarrow> int \<Rightarrow> int" where
  "getDate z tv = DateFromTime (LocalTime z tv)"

definition getMonth :: "zone \<Rightarrow> int \<Rightarrow> int" where
  "getMonth z tv = MonthFromTime (LocalTime z tv)"

definition setDate :: "zone \<Rightarrow> int \<Rightarrow> int \<Rightarrow> int" where
  "setDate z tv date =
     (let t = LocalTime z tv
      in UTC z (MakeDate (MakeDay (YearFromTime t) (MonthFromTime t) date)
                 (TimeWithinDay t)))"

definition setHours :: "zone \<Rightarrow> int \<Rightarrow> int \<Rightarrow> int \<Rightarrow> int \<Rightarrow> int \<Rightarrow> int" where
  "setHours z tv hour minute sec ms =
     (let t = LocalTime z tv
      in UTC z (MakeDate (Day t) (MakeTime hour minute sec ms)))"

subsection \<open>Strings\<close>

definition padStart :: "string \<Rightarrow> nat \<Rightarrow> char \<Rightarrow> string" where
  "padStart s targetLength c = replicate (targetLength - length s) c @ s"

subsection \<open>Numbers\<close>

text \<open>
  A finite JavaScript number is the rational it denotes. Division and multiplication
  return the exact result rounded to the nearest double (53 significant bits, ties to
  even); the exponent range is not modelled, the values of the dashboard lying between
  \<open>2\<^sup>-\<^sup>5\<^sup>3\<close> and 100. \<open>Math.round\<close> returns the nearest integer, the larger one
  at a tie.
\<close>

definition floorLog2 :: "rat \<Rightarrow> int" where
  "floorLog2 x = (if 1 \<le> x then bitlen \<lfloor>x\<rfloor> - 1 else - bitlen (\<lceil>1 / x\<rceil> - 1))"

definition roundTiesToEven :: "rat \<Rightarrow> int" where
  "roundTiesToEven y =
     (let f = \<lfloor>y\<rfloor>; r = y - of_int f in
      if r < 1 / 2 then f
      else if 1 / 2 < r then f + 1
      else if even f then f
      else f + 1)"

definition roundDouble :: "rat \<Rightarrow> rat" where
  "roundDouble x =
     (if x = 0 then 0
      else let e = floorLog2 \<bar>x\<bar> - 52
           in of_int (roundTiesToEven (x / 2 powi e)) * 2 powi e)"

definition jsDiv :: "rat \<Rightarrow> rat \<Rightarrow> rat" where
  "jsDiv a b = roundDouble (a / b)"

definition jsMul :: "rat \<Rightarrow> rat \<Rightarrow> rat" where
  "jsMul a b = roundDouble (a * b)"

definition Math_round :: "rat \<Rightarrow> int" where
  "Math_round x = \<lfloor>x + 1 / 2\<rfloor>"

section \<open>Products and the database\<close>

text \<open>
  A row of the product table. \<open>createdAt\<close> is the time value of the stored date, the
  quantity and the threshold are the integers the table holds (\<open>ProductSchema\<close> lets
  only non-negative ones in), \<open>None\<close> is \<open>null\<close>. The table is the list of its rows;
  the Prisma calls used by the pages are the list operations below.
\<close>

record product =
  productId :: string
  name :: string
  sku :: "string option"
  price :: rat
  quantity :: int
  lowStockAt :: "int option"
  createdAt :: int
  userId :: string

type_synonym db = "product list"

definition validProduct :: "product \<Rightarrow> bool" where
  "validProduct p \<longleftrightarrow>
     name p \<noteq> [] \<and> 0 \<le> price p \<and> 0 \<le> quantity p \<and>
     (case lowStockAt p of None \<Rightarrow> True | Some t \<Rightarrow> 0 \<le> t)"

definition countWhere :: "(product \<Rightarrow> bool) \<Rightarrow> db \<Rightarrow> nat" where
  "countWhere wh rows = length (filter wh rows)"

definition findMany :: "(product \<Rightarrow> bool) \<Rightarrow> db \<Rightarrow> product list" where
  "findMany wh rows = filter wh rows"

text \<open>
  \<open>orderBy: { createdAt: "desc" }, take: n\<close>. Rows with equal \<open>createdAt\<close> are kept in
  table order; the database is free to order them otherwise.
\<close>

definition findManyRecent :: "(product \<Rightarrow> bool) \<Rightarrow> nat \<Rightarrow> db \<Rightarrow> product list" where
  "findManyRecent wh n rows = take n (sort_key (\<lambda>p. - createdAt p) (filter wh rows))"

definition deleteMany :: "(product \<Rightarrow> bool) \<Rightarrow> db \<Rightarrow> nat \<times> db" where
  "deleteMany wh rows = (length (filter wh rows), filter (\<lambda>p. \<not> wh p) rows)"

definition createRow :: "product \<Rightarrow> db \<Rightarrow> db" where
  "createRow row rows = rows @ [row]"

section \<open>Dashboard page\<close>

subsection \<open>Weekly series\<close>

record week_entry =
  week :: string
  products :: nat

definition weekStartOf :: "zone \<Rightarrow> int \<Rightarrow> int \<Rightarrow> int" where
  "weekStartOf z now i =
     (let weekStart = now;
          weekStart = setDate z weekStart (getDate z weekStart - i * 7);
          weekStart = setHours z weekStart 0 0 0 0
      in weekStart)"

definition weekEndOf :: "zone \<Rightarrow> int \<Rightarrow> int" where
  "weekEndOf z weekStart =
     (let weekEnd = weekStart;
          weekEnd = setDate z weekEnd (getDate z weekEnd + 6);
          weekEnd = setHours z weekEnd 23 59 59 999
      in weekEnd)"

definition weekLabelOf :: "(rat \<Rightarrow> string) \<Rightarrow> zone \<Rightarrow> int \<Rightarrow> string" where
  "weekLabelOf numText z weekStart =
     padStart (String numText (Num (of_int (getMonth z weekStart + 1)))) 2 CHR ''0'' @
     CHR ''/'' #
     padStart (String numText (Num (of_int (getDate z weekStart)))) 2 CHR ''0''"

definition inWeek :: "int \<Rightarrow> int \<Rightarrow> product \<Rightarrow> bool" where
  "inWeek weekStart weekEnd product =
     (let productDate = createdAt product
      in productDate \<ge> weekStart \<and> productDate \<le> weekEnd)"

text \<open>The loop \<open>for (let i = 11; i >= 0; i--)\<close>, with the array it pushes on.\<close>

function weeklyLoop ::
    "(rat \<Rightarrow> string) \<Rightarrow> zone \<Rightarrow> int \<Rightarrow> product list \<Rightarrow> int \<Rightarrow> week_entry list
       \<Rightarrow> week_entry list" where
  "weeklyLoop numText z now allProducts i weeklyProductsData =
     (if i \<ge> 0 then
        let weekStart = weekStartOf z now i;
            weekEnd = weekEndOf z weekStart;
            weekLabel = weekLabelOf numText z weekStart;
            weekProducts = filter (inWeek weekStart weekEnd) allProducts
        in weeklyLoop numText z now allProducts (i - 1)
             (weeklyProductsData @ [\<lparr> week = weekLabel, products = length weekProducts \<rparr>])
      else weeklyProductsData)"
  by pat_completeness auto
termination
  by (relation "measure (\<lambda>(numText, z, now, ps, i, acc). nat (i + 1))") auto

declare weeklyLoop.simps [simp del]

subsection \<open>Stock levels of the recent products\<close>

text \<open>
  \<open>product.lowStockAt || 5\<close>: the threshold is 5 when \<open>lowStockAt\<close> is \<open>null\<close> and also
  when it is 0. The level is 0 for out of stock, 1 for low stock, 2 for in stock.
\<close>

definition stockLevel :: "product \<Rightarrow> nat" where
  "stockLevel product =
     (let threshold = (case lowStockAt product of
                         None \<Rightarrow> 5
                       | Some t \<Rightarrow> if t = 0 then 5 else t)
      in if quantity product = 0 then 0
         else if quantity product \<le> threshold then 1
         else 2)"

subsection \<open>The page\<close>

record dashboard =
  totalProducts :: nat
  lowStock :: nat
  inStockCount :: nat
  lowStockCount :: nat
  outOfStockCount :: nat
  inStockPercentage :: int
  lowStockPercentage :: int
  outOfStockPercentage :: int
  weeklyProductsData :: "week_entry list"
  recentLevels :: "(product \<times> nat) list"

text \<open>
  \<open>DashboardPage\<close> for the user \<open>uid\<close> that \<open>getCurrentUser\<close> returned, at the time
  \<open>now\<close> of \<open>new Date()\<close>, in the time zone \<open>z\<close> of the server, on one state of the
  table. The total inventory value (a sum of floating-point products) and the markup
  are left out.
\<close>

definition DashboardPage ::
    "(rat \<Rightarrow> string) \<Rightarrow> zone \<Rightarrow> int \<Rightarrow> string \<Rightarrow> db \<Rightarrow> dashboard" where
  "DashboardPage numText z now uid rows =
     (let totalProducts = countWhere (\<lambda>p. userId p = uid) rows;
          lowStock = countWhere
            (\<lambda>p. userId p = uid \<and> lowStockAt p \<noteq> None \<and> quantity p \<le> 5) rows;
          allProducts = findMany (\<lambda>p. userId p = uid) rows;
          inStockCount = length (filter (\<lambda>p. quantity p > 5) allProducts);
          lowStockCount =
            length (filter (\<lambda>p. quantity p \<le> 5 \<and> quantity p \<ge> 1) allProducts);
          outOfStockCount = length (filter (\<lambda>p. quantity p = 0) allProducts);
          inStockPercentage =
            (if totalProducts > 0
             then Math_round (jsMul (jsDiv (of_nat inStockCount) (of_nat totalProducts)) 100)
             else 0);
          lowStockPercentage =
            (if totalProducts > 0
             then Math_round (jsMul (jsDiv (of_nat lowStockCount) (of_nat totalProducts)) 100)
             else 0);
          outOfStockPercentage =
            (if totalProducts > 0
             then Math_round (jsMul (jsDiv (of_nat outOfStockCount) (of_nat totalProducts)) 100)
             else 0);
          weeklyProductsData = weeklyLoop numText z now allProducts 11 [];
          recent = findManyRecent (\<lambda>p. userId p = uid) 5 rows
      in \<lparr> totalProducts = totalProducts,
           lowStock = lowStock,
           inStockCount = inStockCount,
           lowStockCount = lowStockCount,
           outOfStockCount = outOfStockCount,
           inStockPercentage = inStockPercentage,
           lowStockPercentage = lowStockPercentage,
           outOfStockPercentage = outOfStockPercentage,
           weeklyProductsData = weeklyProductsData,
           recentLevels = map (\<lambda>product. (product, stockLevel product)) recent \<rparr>)"

section \<open>Server actions\<close>

text \<open>
  A \<open>FormData\<close> object is the map from its field names to their string values
  (\<open>get\<close> returns \<open>null\<close>, here \<open>None\<close>, for a missing field; file entries are outside
  the model).

  How an action ends: it returns, or it throws an \<open>Error\<close> with a message.
\<close>

type_synonym form_data = "string \<rightharpoonup> string"

datatype action_result = Returned | Threw string

subsection \<open>ProductSchema\<close>

text \<open>
  The object handed to \<open>safeParse\<close>: \<open>None\<close> is \<open>null\<close> for the first three fields
  and \<open>undefined\<close> for the two optional ones.

  \<open>z.coerce.number()\<close> applies \<open>Number\<close> to its input and rejects \<open>NaN\<close>.
  \<open>Number(null)\<close> is 0; \<open>Number\<close> of a string is the parameter \<open>toNumber\<close>, with
  \<open>None\<close> for \<open>NaN\<close> (infinite values are outside the model).

  \<open>.int()\<close> accepts the integers; from version 4 on the library accepts only the safe
  ones, up to \<open>2\<^sup>5\<^sup>3 - 1\<close> in absolute value. Which version is installed is the
  parameter \<open>safeOnly\<close>.
\<close>

record schema_input =
  inName :: "string option"
  inPrice :: "string option"
  inQuantity :: "string option"
  inSku :: "string option"
  inLowStockAt :: "string option"

record parsed_data =
  dataName :: string
  dataPrice :: rat
  dataQuantity :: int
  dataSku :: "string option"
  dataLowStockAt :: "int option"

definition coerceNumber :: "(string \<Rightarrow> rat option) \<Rightarrow> string option \<Rightarrow> rat option" where
  "coerceNumber toNumber v = (case v of None \<Rightarrow> Some 0 | Some s \<Rightarrow> toNumber s)"

definition isInteger :: "rat \<Rightarrow> bool" where
  "isInteger r \<longleftrightarrow> r = of_int \<lfloor>r\<rfloor>"

definition intCheck :: "bool \<Rightarrow> rat \<Rightarrow> bool" where
  "intCheck safeOnly r =
     (if safeOnly then isInteger r \<and> \<bar>r\<bar> \<le> 2 ^ 53 - 1 else isInteger r)"

definition safeParse ::
    "bool \<Rightarrow> (string \<Rightarrow> rat option) \<Rightarrow> schema_input \<Rightarrow> parsed_data option" where
  "safeParse safeOnly toNumber inp =
     (case inName inp of
        None \<Rightarrow> None
      | Some nm \<Rightarrow>
          if length nm < 1 then None
          else
            (case coerceNumber toNumber (inPrice inp) of
               None \<Rightarrow> None
             | Some pr \<Rightarrow>
                 if pr < 0 then None
                 else
                   (case coerceNumber toNumber (inQuantity inp) of
                      None \<Rightarrow> None
                    | Some qt \<Rightarrow>
                        if \<not> intCheck safeOnly qt \<or> qt < 0 then None
                        else
                          (case inLowStockAt inp of
                             None \<Rightarrow>
                               Some \<lparr> dataName = nm, dataPrice = pr, dataQuantity = \<lfloor>qt\<rfloor>,
                                      dataSku = inSku inp, dataLowStockAt = None \<rparr>
                           | Some ls \<Rightarrow>
                               (case toNumber ls of
                                  None \<Rightarrow> None
                                | Some lw \<Rightarrow>
                                    if \<not> intCheck safeOnly lw \<or> lw < 0 then None
                                    else
                                      Some \<lparr> dataName = nm, dataPrice = pr,
                                             dataQuantity = \<lfloor>qt\<rfloor>, dataSku = inSku inp,
                                             dataLowStockAt = Some \<lfloor>lw\<rfloor> \<rparr>)))))"

subsection \<open>deleteProduct\<close>

text \<open>\<open>String(formData.get("id") || "")\<close>: the submitted id, the empty string when there is none.\<close>

definition submittedId :: "form_data \<Rightarrow> string" where
  "submittedId formData = (case formData ''id'' of None \<Rightarrow> [] | Some s \<Rightarrow> s)"

definition deleteProduct :: "string \<Rightarrow> form_data \<Rightarrow> db \<Rightarrow> action_result \<times> db" where
  "deleteProduct uid formData rows =
     (let ident = submittedId formData;
          (affected, rows') = deleteMany (\<lambda>p. productId p = ident \<and> userId p = uid) rows
      in (Returned, rows'))"

subsection \<open>createProduct\<close>

text \<open>
  \<open>createProduct\<close> for the user \<open>uid\<close>. The table fills in the id and the creation time
  of the new row (\<open>newId\<close>, \<open>now\<close>); \<open>writeFails\<close> says whether \<open>prisma.product.create\<close>
  throws. The object given to \<open>safeParse\<close> has the four fields the action reads from
  the form, \<open>sku\<close> being \<open>undefined\<close> when the field is missing or empty; it has no
  \<open>lowStockAt\<close>.

  \<open>redirect\<close> never returns: it throws, inside the \<open>try\<close> block, so that the \<open>catch\<close>
  block runs after a successful write too.
\<close>

definition createProduct ::
    "bool \<Rightarrow> (string \<Rightarrow> rat option) \<Rightarrow> bool \<Rightarrow> string \<Rightarrow> int \<Rightarrow> string \<Rightarrow> form_data
       \<Rightarrow> db \<Rightarrow> action_result \<times> db" where
  "createProduct safeOnly toNumber writeFails newId now uid formData rows =
     (let parsed = safeParse safeOnly toNumber
            \<lparr> inName = formData ''name'',
              inPrice = formData ''price'',
              inQuantity = formData ''quantity'',
              inSku = (case formData ''sku'' of
                         None \<Rightarrow> None
                       | Some s \<Rightarrow> if s = [] then None else Some s),
              inLowStockAt = None \<rparr>
      in case parsed of
           None \<Rightarrow> (Threw ''Validation failed'', rows)
         | Some d \<Rightarrow>
             if writeFails then (Threw ''Failed to create product'', rows)
             else
               (Threw ''Failed to create product'',
                createRow \<lparr> productId = newId, name = dataName d, sku = dataSku d,
                            price = dataPrice d, quantity = dataQuantity d,
                            lowStockAt = dataLowStockAt d, createdAt = now,
                            userId = uid \<rparr> rows))"

section \<open>Inventory page: the pagination call\<close>

text \<open>
  The part of \<open>InventoryPage\<close> that decides on the navigation control, from the number
  \<open>totalCount\<close> of matching products, the page number (parsed and raised to at least
  1 by the page) and the trimmed query \<open>q\<close>.
\<close>

definition pageSize :: int where
  "pageSize = 5"

definition inventoryPagination ::
    "(rat \<Rightarrow> string) \<Rightarrow> nat \<Rightarrow> int \<Rightarrow> string \<Rightarrow> nav option" where
  "inventoryPagination numText totalCount page q =
     (let totalPages = max 1 \<lceil>jsDiv (of_nat totalCount) (of_int pageSize)\<rceil>
      in if totalPages > 1
         then Pagination numText page totalPages ''/inventory''
                [(''q'', q), (''pageSize'', String numText (Num (of_int pageSize)))]
         else None)"

section \<open>The specification's words\<close>

text \<open>
  The effective threshold as the specification words it: \<open>lowStockAt\<close> when set,
  5 otherwise.
\<close>

definition effectiveThreshold :: "product \<Rightarrow> int" where
  "effectiveThreshold p = (case lowStockAt p of None \<Rightarrow> 5 | Some t \<Rightarrow> t)"

text \<open>Rounding the exact fraction half up, in integer arithmetic: \<open>\<lfloor>100 c / t + 1/2\<rfloor>\<close>.\<close>

definition exactPercent :: "nat \<Rightarrow> nat \<Rightarrow> int" where
  "exactPercent c t = (if t > 0 then (200 * int c + int t) div (2 * int t) else 0)"

text \<open>
  A local time value is skipped when a clock change that moves the clocks forward jumps
  over it. The changes of a zone are in order when their instants increase.
\<close>

fun skippedIn :: "int \<Rightarrow> (int \<times> int) list \<Rightarrow> int \<Rightarrow> bool" where
  "skippedIn off [] t = False"
| "skippedIn off ((instant, off') # changes) t =
     (if instant + off \<le> t \<and> t < instant + off' then True else skippedIn off' changes t)"

definition skipped :: "zone \<Rightarrow> int \<Rightarrow> bool" where
  "skipped z t = skippedIn (fst z) (snd z) t"

definition changesInOrder :: "zone \<Rightarrow> bool" where
  "changesInOrder z = sorted_wrt (<) (map fst (snd z))"

text \<open>
  The local times that the loop of the dashboard sets for week \<open>i\<close>: the time of day of
  \<open>now\<close> on the day \<open>7 i\<close> days before, the start of that day, the start of the day
  six days later and the end of that day. The week is regular when setting the first
  and the third gives a time on the day asked for, and the second and the fourth are
  not skipped.
\<close>

definition dayKept :: "zone \<Rightarrow> int \<Rightarrow> bool" where
  "dayKept z t = (Day (LocalTime z (UTC z t)) = Day t)"

definition weekRegular :: "zone \<Rightarrow> int \<Rightarrow> int \<Rightarrow> bool" where
  "weekRegular z now i =
     (let d = Day (LocalTime z now) - i * 7 in
      dayKept z (MakeDate d (TimeWithinDay (LocalTime z now))) \<and>
      \<not> skipped z (MakeDate d 0) \<and>
      dayKept z (MakeDate (d + 6) 0) \<and>
      \<not> skipped z (MakeDate (d + 6) (MakeTime 23 59 59 999)))"

definition weeksRegular :: "zone \<Rightarrow> int \<Rightarrow> bool" where
  "weeksRegular z now = list_all (weekRegular z now) [0, 1, 2, 3, 4, 5, 6, 7, 8, 9, 10, 11]"

section \<open>Reading the parameters of a URL\<close>

text \<open>
  What the query string of a URL contains is what its reader gets out of it. The query
  is the part after the first \<open>?\<close>, the fragment after \<open>#\<close> left off. The
  application/x-www-form-urlencoded parser splits it at \<open>&\<close>, skips empty pieces,
  splits each piece at its first \<open>=\<close>, and decodes name and value: \<open>+\<close> is a
  space, \<open>%\<close> with two hexadecimal digits is the byte they denote. These functions are
  not code of the repository; they state the property of \<open>getPageUrl\<close>.
\<close>

definition hexVal :: "char \<Rightarrow> nat option" where
  "hexVal c =
     (let n = of_char c :: nat in
      if 48 \<le> n \<and> n \<le> 57 then Some (n - 48)
      else if 65 \<le> n \<and> n \<le> 70 then Some (n - 55)
      else if 97 \<le> n \<and> n \<le> 102 then Some (n - 87)
      else None)"

fun percentDecode :: "string \<Rightarrow> string" where
  "percentDecode [] = []"
| "percentDecode (c # cs) =
     (if c = CHR ''%'' then
        (case cs of
           h # l # rest \<Rightarrow>
             (case (hexVal h, hexVal l) of
                (Some a, Some b) \<Rightarrow> char_of (16 * a + b) # percentDecode rest
              | _ \<Rightarrow> c # percentDecode cs)
         | _ \<Rightarrow> c # percentDecode cs)
      else c # percentDecode cs)"

definition plusToSpace :: "string \<Rightarrow> string" where
  "plusToSpace s = map (\<lambda>c. if c = CHR ''+'' then CHR '' '' else c) s"

definition urldecode :: "string \<Rightarrow> string" where
  "urldecode s = percentDecode (plusToSpace s)"

fun splitOn :: "char \<Rightarrow> string \<Rightarrow> string list" where
  "splitOn sep [] = [[]]"
| "splitOn sep (c # cs) =
     (if c = sep then [] # splitOn sep cs
      else (case splitOn sep cs of
              [] \<Rightarrow> [[c]]
            | p # ps \<Rightarrow> (c # p) # ps))"

definition splitFirst :: "char \<Rightarrow> string \<Rightarrow> string \<times> string" where
  "splitFirst sep s = (takeWhile (\<lambda>c. c \<noteq> sep) s, drop 1 (dropWhile (\<lambda>c. c \<noteq> sep) s))"

definition parseQuery :: "string \<Rightarrow> params" where
  "parseQuery s =
     map (\<lambda>piece. case splitFirst CHR ''='' piece of (k, v) \<Rightarrow> (urldecode k, urldecode v))
       (filter (\<lambda>piece. piece \<noteq> []) (splitOn CHR ''&'' s))"

text \<open>
  The integer that a decimal numeral denotes: digits, after an optional minus sign.
  It is how the page number is read back from the \<open>page\<close> parameter.
\<close>

definition digitVal :: "char \<Rightarrow> nat option" where
  "digitVal c =
     (let n = of_char c :: nat in if 48 \<le> n \<and> n \<le> 57 then Some (n - 48) else None)"

fun digitsValue :: "nat \<Rightarrow> string \<Rightarrow> nat option" where
  "digitsValue acc [] = Some acc"
| "digitsValue acc (c # cs) =
     (case digitVal c of None \<Rightarrow> None | Some d \<Rightarrow> digitsValue (10 * acc + d) cs)"

definition decimalValue :: "string \<Rightarrow> int option" where
  "decimalValue s =
     (case s of
        [] \<Rightarrow> None
      | c # cs \<Rightarrow>
          if c = CHR ''-''
          then (if cs = [] then None else map_option (\<lambda>n. - int n) (digitsValue 0 cs))
          else map_option int (digitsValue 0 s))"

definition queryOf :: "string \<Rightarrow> string" where
  "queryOf url =
     drop 1 (dropWhile (\<lambda>c. c \<noteq> CHR ''?'') (takeWhile (\<lambda>c. c \<noteq> CHR ''#'') url))"

section \<open>Sample data\<close>

text \<open>
  Seven products of one user without thresholds, with the quantities 0, 3, 3, 6, 6, 6, 10 of the
  specification's example, used to evaluate the definitions at concrete inputs.
\<close>

definition sampleProduct :: "string \<Rightarrow> int \<Rightarrow> int option \<Rightarrow> int \<Rightarrow> product" where
  "sampleProduct ident q low created =
     \<lparr> productId = ident, name = ''item'', sku = None, price = 1, quantity = q,
       lowStockAt = low, createdAt = created, userId = ''u1'' \<rparr>"

definition sampleRows :: db where
  "sampleRows =
     [sampleProduct ''p1'' 0 None 1710400000000,
      sampleProduct ''p2'' 3 None 1710000000000,
      sampleProduct ''p3'' 3 None 1709000000000,
      sampleProduct ''p4'' 6 None 1709000000000,
      sampleProduct ''p5'' 6 None 1704000000000,
      sampleProduct ''p6'' 6 None 1703808000000,
      sampleProduct ''p7'' 10 None 1600000000000]"

definition sampleToNumber :: "string \<Rightarrow> rat option" where
  "sampleToNumber s =
     (if s = ''10'' then Some 10
      else if s = ''3'' then Some 3
      else if s = ''2'' then Some 2
      else None)"

definition sampleForm :: form_data where
  "sampleForm = [''name'' \<mapsto> ''Widget'', ''price'' \<mapsto> ''10'', ''quantity'' \<mapsto> ''3'',
                 ''lowStockAt'' \<mapsto> ''2'']"

text \<open>
  Forty products of one user, 23 of them with quantity 6 and 17 with quantity 0.
\<close>

definition fortyRows :: db where
  "fortyRows =
     map (\<lambda>i. sampleProduct (natDigits (nat i)) 6 None 0) [1 .. 23] @
     map (\<lambda>i. sampleProduct (natDigits (nat i)) 0 None 0) [24 .. 40]"

text \<open>
  Two time zones: UTC, and New York with its clock changes of 2023 and 2024 (five hours
  behind UTC in winter, four in summer; the clocks changed on 12 March 2023 and
  10 March 2024 at 07:00 UTC and on 5 November 2023 and 3 November 2024 at 06:00 UTC).
  The samples print integers below \<open>2\<^sup>5\<^sup>3\<close> only, so that any function does for the
  text of the other numbers.
\<close>

definition utcZone :: zone where
  "utcZone = (0, [])"


definition numTextSample :: "rat \<Rightarrow> string" where
  "numTextSample r = []"

text \<open>
  Apia (Samoa) with its clock changes of 2011 and 2012: eleven hours behind UTC, ten from
  24 September 2011 at 14:00 UTC; on 30 December 2011 at 10:00 UTC the zone moved across
  the date line to fourteen hours ahead of UTC, so the local day 30 December 2011 does
  not exist there; thirteen hours ahead from 31 March 2012 at 14:00 UTC.
\<close>

definition apia :: zone where
  "apia =
     (- 39600000,
      [(1316872800000, - 36000000), (1325239200000, 50400000),
       (1333202400000, 46800000)])"

section \<open>Properties of the pagination component\<close>

lemma String_int:
  assumes "\<bar>i\<bar> < 2 ^ 53"
  shows "String numText (Num (of_int i)) =
           (if i < 0 then CHR ''-'' # natDigits (nat (- i)) else natDigits (nat i))"
proof -
  have "\<bar>of_int i :: rat\<bar> < 2 ^ 53"
    using assms by (simp only: of_int_abs [symmetric] of_int_less_numeral_power_cancel_iff)
  then show ?thesis
    by (simp add: String_def)
qed

lemma rangeLoop_upto:
  "rangeLoop c t i r = r @ [i .. min (t - 1) (c + delta)]"
proof (induction c t i r rule: rangeLoop.induct)
  case (1 c t i r)
  define hi where "hi = min (t - 1) (c + delta)"
  show ?case
  proof (cases "i \<le> hi")
    case True
    then have "rangeLoop c t i r = rangeLoop c t (i + 1) (r @ [i])"
      unfolding hi_def by (subst rangeLoop.simps) simp
    also have "\<dots> = (r @ [i]) @ [i + 1 .. hi]"
      using "1.IH" True unfolding hi_def by simp
    also have "\<dots> = r @ [i .. hi]"
      using True by (simp add: upto_rec1)
    finally show ?thesis
      unfolding hi_def .
  next
    case False
    then have "rangeLoop c t i r = r"
      unfolding hi_def by (subst rangeLoop.simps) (simp only: if_False)
    moreover have "[i .. hi] = []"
      using False by simp
    ultimately show ?thesis
      unfolding hi_def by simp
  qed
qed

text \<open>
  C3. For \<open>1 \<le> currentPage \<le> totalPages\<close> and \<open>totalPages \<ge> 2\<close> the token sequence
  is: the token 1; one ellipsis exactly when \<open>currentPage - 2 > 2\<close>; the pages from
  \<open>max(2, currentPage - 2)\<close> to \<open>min(totalPages - 1, currentPage + 2)\<close> in increasing
  order (none when the bounds cross); one ellipsis exactly when
  \<open>currentPage + 2 < totalPages - 1\<close>; the token \<open>totalPages\<close>. The witness is the
  instance \<open>currentPage = 5\<close>, \<open>totalPages = 10\<close> of the specification.
\<close>

theorem getVisiblePages_window:
  assumes "1 \<le> currentPage" and "currentPage \<le> totalPages" and "2 \<le> totalPages"
  shows "getVisiblePages currentPage totalPages =
           [Page 1]
           @ (if currentPage - 2 > 2 then [Dots] else [])
           @ map Page [max 2 (currentPage - 2) .. min (totalPages - 1) (currentPage + 2)]
           @ (if currentPage + 2 < totalPages - 1 then [Dots] else [])
           @ [Page totalPages]"
  by (simp add: getVisiblePages_def Let_def rangeLoop_upto delta_def)

theorem getVisiblePages_window_witness:
  "(1::int) \<le> 5 \<and> (5::int) \<le> 10 \<and> (2::int) \<le> 10 \<and>
   getVisiblePages 5 10 =
     [Page 1, Dots, Page 3, Page 4, Page 5, Page 6, Page 7, Dots, Page 10]"
  using getVisiblePages_window [of 5 10] by simp

text \<open>
  C2, as stated, fails: evaluated at \<open>currentPage = 1\<close>, \<open>totalPages = 1\<close> the window
  computation pushes the first page and then the last page, which are the same page.
\<close>

theorem getVisiblePages_single_page_counterexample:
  "getVisiblePages 1 1 = [Page 1, Page 1] \<and> getVisiblePages 1 1 \<noteq> [Page 1]"
  by (simp add: getVisiblePages_def Let_def rangeLoop_upto delta_def)

lemma jsDiv_page_count_small:
  assumes "totalCount \<le> 5"
  shows "jsDiv (of_nat totalCount) 5 \<le> 1"
proof -
  from assms consider "totalCount = 0" | "totalCount = 1" | "totalCount = 2"
    | "totalCount = 3" | "totalCount = 4" | "totalCount = 5"
    by linarith
  then show ?thesis
  proof cases
    case 1
    then show ?thesis by (simp add: jsDiv_def roundDouble_def)
  next
    case 2
    have "jsDiv 1 5 \<le> 1" by code_simp
    with 2 show ?thesis by simp
  next
    case 3
    have "jsDiv 2 5 \<le> 1" by code_simp
    with 3 show ?thesis by simp
  next
    case 4
    have "jsDiv 3 5 \<le> 1" by code_simp
    with 4 show ?thesis by simp
  next
    case 5
    have "jsDiv 4 5 \<le> 1" by code_simp
    with 5 show ?thesis by simp
  next
    case 6
    have "jsDiv 5 5 \<le> 1" by code_simp
    with 6 show ?thesis by simp
  qed
qed

text \<open>
  C2, amended. With \<open>totalPages \<le> 1\<close> (so for \<open>currentPage = 1\<close>, \<open>totalPages = 1\<close>) the
  component returns \<open>null\<close> before any window is computed, and the inventory page does
  not render the component when at most one page of products matches. With more pages
  the component shows the tokens of the window computation.
\<close>

theorem Pagination_hidden_single_page:
  "(totalPages \<le> 1 \<longrightarrow>
      Pagination numText currentPage totalPages baseUrl searchParams = None) \<and>
   (totalCount \<le> 5 \<longrightarrow> inventoryPagination numText totalCount page q = None) \<and>
   (1 < totalPages \<longrightarrow>
      map_option navItems (Pagination numText currentPage totalPages baseUrl searchParams) =
        Some (map (renderToken numText baseUrl searchParams currentPage)
               (getVisiblePages currentPage totalPages)))"
proof (intro conjI impI)
  assume "totalPages \<le> 1"
  then show "Pagination numText currentPage totalPages baseUrl searchParams = None"
    by (simp add: Pagination_def)
next
  assume "totalCount \<le> 5"
  then have "\<lceil>jsDiv (of_nat totalCount) 5\<rceil> \<le> 1"
    using jsDiv_page_count_small [of totalCount] by (simp add: ceiling_le_iff)
  then show "inventoryPagination numText totalCount page q = None"
    by (simp add: inventoryPagination_def Let_def pageSize_def)
next
  assume "1 < totalPages"
  then show "map_option navItems (Pagination numText currentPage totalPages baseUrl searchParams) =
        Some (map (renderToken numText baseUrl searchParams currentPage)
               (getVisiblePages currentPage totalPages))"
    by (simp add: Pagination_def Let_def)
qed

theorem Pagination_hidden_single_page_witness:
  "(1::int) \<le> 1 \<and> Pagination numTextSample 1 1 ''/inventory'' [(''q'', [])] = None \<and>
   (3::nat) \<le> 5 \<and> inventoryPagination numTextSample 3 1 [] = None \<and>
   (1::int) < 3 \<and>
   map_option navItems (Pagination numTextSample 1 3 ''/inventory'' []) =
     Some (map (renderToken numTextSample ''/inventory'' [] 1) (getVisiblePages 1 3))"
  using Pagination_hidden_single_page
    [where numText = numTextSample and currentPage = 1 and totalPages = 1
       and baseUrl = "''/inventory''" and searchParams = "[(''q'', [])]"
       and totalCount = 3 and page = 1 and q = "[]"]
    Pagination_hidden_single_page
    [where numText = numTextSample and currentPage = 1 and totalPages = 3
       and baseUrl = "''/inventory''" and searchParams = "[]"
       and totalCount = 3 and page = 1 and q = "[]"]
  by simp

section \<open>Properties of the date functions\<close>













lemma MakeDate_Day: "MakeDate (Day t) (TimeWithinDay t) = t"
  by (simp add: Day_def TimeWithinDay_def MakeDate_def)



section \<open>Properties of the time zone\<close>







section \<open>Properties of the weekly windows\<close>








section \<open>Properties of the dashboard\<close>







lemma length_filter3:
  assumes "\<forall>x\<in>set xs. (P x \<or> Q x \<or> R x) \<and> \<not> (P x \<and> Q x) \<and> \<not> (P x \<and> R x) \<and> \<not> (Q x \<and> R x)"
  shows "length (filter P xs) + length (filter Q xs) + length (filter R xs) = length xs"
  using assms by (induction xs) auto

text \<open>
  C4. On a table whose rows satisfy the data model (quantities are non-negative, as
  \<open>ProductSchema\<close> enforces on creation), the three counts of the dashboard add up
  to the number of the user's products: the three filters are exhaustive and mutually
  exclusive. This holds for every table, the empty one included.
\<close>

theorem stock_counts_partition:
  assumes "\<forall>p\<in>set rows. validProduct p"
  shows "inStockCount (DashboardPage numText z now uid rows)
           + lowStockCount (DashboardPage numText z now uid rows)
           + outOfStockCount (DashboardPage numText z now uid rows)
         = length (findMany (\<lambda>p. userId p = uid) rows) \<and>
         length (findMany (\<lambda>p. userId p = uid) rows) =
           totalProducts (DashboardPage numText z now uid rows)"
proof -
  define allProducts where "allProducts = findMany (\<lambda>p. userId p = uid) rows"
  have "\<forall>p\<in>set allProducts. 0 \<le> quantity p"
    using assms by (auto simp: allProducts_def findMany_def validProduct_def)
  then have "\<forall>p\<in>set allProducts.
      (quantity p > 5 \<or> (quantity p \<le> 5 \<and> quantity p \<ge> 1) \<or> quantity p = 0) \<and>
      \<not> (quantity p > 5 \<and> (quantity p \<le> 5 \<and> quantity p \<ge> 1)) \<and>
      \<not> (quantity p > 5 \<and> quantity p = 0) \<and>
      \<not> ((quantity p \<le> 5 \<and> quantity p \<ge> 1) \<and> quantity p = 0)"
    by auto
  then have "length (filter (\<lambda>p. quantity p > 5) allProducts)
      + length (filter (\<lambda>p. quantity p \<le> 5 \<and> quantity p \<ge> 1) allProducts)
      + length (filter (\<lambda>p. quantity p = 0) allProducts) = length allProducts"
    by (rule length_filter3)
  then show ?thesis
    by (simp add: DashboardPage_def Let_def allProducts_def countWhere_def findMany_def)
qed

lemma sampleRows_valid: "\<forall>p\<in>set sampleRows. validProduct p"
  by (simp add: sampleRows_def sampleProduct_def validProduct_def)

lemma sampleRows_all: "findMany (\<lambda>p. userId p = ''u1'') sampleRows = sampleRows"
  by (simp add: sampleRows_def sampleProduct_def findMany_def)

theorem stock_counts_partition_witness:
  "list_all validProduct sampleRows \<and>
   inStockCount (DashboardPage numTextSample utcZone 1710500000000 ''u1'' sampleRows) = 4 \<and>
   lowStockCount (DashboardPage numTextSample utcZone 1710500000000 ''u1'' sampleRows) = 2 \<and>
   outOfStockCount (DashboardPage numTextSample utcZone 1710500000000 ''u1'' sampleRows) = 1 \<and>
   totalProducts (DashboardPage numTextSample utcZone 1710500000000 ''u1'' sampleRows) = 7"
proof -
  have c: "inStockCount (DashboardPage numTextSample utcZone 1710500000000 ''u1'' sampleRows) = 4"
    "lowStockCount (DashboardPage numTextSample utcZone 1710500000000 ''u1'' sampleRows) = 2"
    by (simp_all add: DashboardPage_def Let_def findMany_def sampleRows_def sampleProduct_def)
  show ?thesis
    using stock_counts_partition [OF sampleRows_valid, of numTextSample utcZone 1710500000000 "''u1''"]
    by (simp add: c sampleRows_valid sampleRows_all list_all_iff) (simp add: sampleRows_def)
qed



lemma fixed_zone_regular: "changesInOrder (off, []) \<and> weeksRegular (off, []) now"
  by (simp add: changesInOrder_def weeksRegular_def weekRegular_def dayKept_def skipped_def
      LocalTime_def UTC_def LocalTZA_def Let_def)








lemma apia_in_order: "changesInOrder apia"
  by (simp add: changesInOrder_def apia_def)






section \<open>Stock classification\<close>

text \<open>
  C1, as stated, fails: for a product with \<open>lowStockAt = 10\<close> and \<open>quantity = 10\<close> the
  list of recent products shows the low-stock level, while the breakdown counts it as
  in stock, not as low stock. The breakdown does not read \<open>lowStockAt\<close>.
\<close>

theorem stock_classification_counterexample:
  "stockLevel (sampleProduct ''p7'' 10 (Some 10) 1600000000000) = 1 \<and>
   recentLevels (DashboardPage numTextSample utcZone 1710500000000 ''u1''
       [sampleProduct ''p7'' 10 (Some 10) 1600000000000]) =
     [(sampleProduct ''p7'' 10 (Some 10) 1600000000000, 1)] \<and>
   lowStockCount (DashboardPage numTextSample utcZone 1710500000000 ''u1''
       [sampleProduct ''p7'' 10 (Some 10) 1600000000000]) = 0 \<and>
   inStockCount (DashboardPage numTextSample utcZone 1710500000000 ''u1''
       [sampleProduct ''p7'' 10 (Some 10) 1600000000000]) = 1"
  by (simp add: DashboardPage_def Let_def stockLevel_def sampleProduct_def findMany_def
      findManyRecent_def)

text \<open>
  C1, amended. On a table whose rows satisfy the data model: in the list of recent
  products a product whose threshold is not 0 is out of stock exactly at quantity 0, low
  stock exactly from 1 up to its effective threshold (\<open>lowStockAt\<close> when set, 5
  otherwise), in stock exactly above it; the breakdown counts classify with the fixed
  threshold 5 whatever \<open>lowStockAt\<close> is.
\<close>

theorem stock_classification:
  assumes "\<forall>p\<in>set rows. validProduct p"
  shows "(\<forall>(p, level)\<in>set (recentLevels (DashboardPage numText z now uid rows)).
            lowStockAt p \<noteq> Some 0 \<longrightarrow>
            (level = 0 \<longleftrightarrow> quantity p = 0) \<and>
            (level = 1 \<longleftrightarrow> 0 < quantity p \<and> quantity p \<le> effectiveThreshold p) \<and>
            (level = 2 \<longleftrightarrow> effectiveThreshold p < quantity p)) \<and>
         outOfStockCount (DashboardPage numText z now uid rows) =
           length (filter (\<lambda>p. quantity p = 0) (findMany (\<lambda>p. userId p = uid) rows)) \<and>
         lowStockCount (DashboardPage numText z now uid rows) =
           length (filter (\<lambda>p. 0 < quantity p \<and> quantity p \<le> 5)
             (findMany (\<lambda>p. userId p = uid) rows)) \<and>
         inStockCount (DashboardPage numText z now uid rows) =
           length (filter (\<lambda>p. 5 < quantity p) (findMany (\<lambda>p. userId p = uid) rows))"
proof (intro conjI)
  show "\<forall>(p, level)\<in>set (recentLevels (DashboardPage numText z now uid rows)).
            lowStockAt p \<noteq> Some 0 \<longrightarrow>
            (level = 0 \<longleftrightarrow> quantity p = 0) \<and>
            (level = 1 \<longleftrightarrow> 0 < quantity p \<and> quantity p \<le> effectiveThreshold p) \<and>
            (level = 2 \<longleftrightarrow> effectiveThreshold p < quantity p)"
  proof (clarify)
    fix p :: product and level :: nat
    assume mem: "(p, level) \<in> set (recentLevels (DashboardPage numText z now uid rows))"
      and nz: "lowStockAt p \<noteq> Some 0"
    from mem have lv: "level = stockLevel p"
      and "p \<in> set (findManyRecent (\<lambda>p. userId p = uid) 5 rows)"
      by (auto simp: DashboardPage_def Let_def)
    then have "p \<in> set rows"
      by (auto simp: findManyRecent_def dest: in_set_takeD)
    with assms have v: "0 \<le> quantity p" "case lowStockAt p of None \<Rightarrow> True | Some t \<Rightarrow> 0 \<le> t"
      by (auto simp: validProduct_def)
    show "(level = 0 \<longleftrightarrow> quantity p = 0) \<and>
            (level = 1 \<longleftrightarrow> 0 < quantity p \<and> quantity p \<le> effectiveThreshold p) \<and>
            (level = 2 \<longleftrightarrow> effectiveThreshold p < quantity p)"
      using v nz unfolding lv
      by (cases "lowStockAt p") (auto simp: stockLevel_def effectiveThreshold_def Let_def)
  qed
next
  show "outOfStockCount (DashboardPage numText z now uid rows) =
           length (filter (\<lambda>p. quantity p = 0) (findMany (\<lambda>p. userId p = uid) rows))"
    by (simp add: DashboardPage_def Let_def)
next
  have "(\<lambda>p :: product. quantity p \<le> 5 \<and> quantity p \<ge> 1) =
      (\<lambda>p. 0 < quantity p \<and> quantity p \<le> 5)"
    by (rule ext) auto
  then show "lowStockCount (DashboardPage numText z now uid rows) =
           length (filter (\<lambda>p. 0 < quantity p \<and> quantity p \<le> 5)
             (findMany (\<lambda>p. userId p = uid) rows))"
    by (simp add: DashboardPage_def Let_def)
next
  show "inStockCount (DashboardPage numText z now uid rows) =
           length (filter (\<lambda>p. 5 < quantity p) (findMany (\<lambda>p. userId p = uid) rows))"
    by (simp add: DashboardPage_def Let_def)
qed

theorem stock_classification_witness:
  "list_all validProduct [sampleProduct ''p7'' 10 (Some 10) 1600000000000] \<and>
   (sampleProduct ''p7'' 10 (Some 10) 1600000000000, 1) \<in>
     set (recentLevels (DashboardPage numTextSample utcZone 1710500000000 ''u1''
       [sampleProduct ''p7'' 10 (Some 10) 1600000000000])) \<and>
   lowStockAt (sampleProduct ''p7'' 10 (Some 10) 1600000000000) \<noteq> Some 0 \<and>
   0 < quantity (sampleProduct ''p7'' 10 (Some 10) 1600000000000) \<and>
   quantity (sampleProduct ''p7'' 10 (Some 10) 1600000000000)
     \<le> effectiveThreshold (sampleProduct ''p7'' 10 (Some 10) 1600000000000) \<and>
   inStockCount (DashboardPage numTextSample utcZone 1710500000000 ''u1''
       [sampleProduct ''p7'' 10 (Some 10) 1600000000000]) = 1"
proof -
  define p where "p = sampleProduct ''p7'' 10 (Some 10) 1600000000000"
  have v: "\<forall>q\<in>set [p]. validProduct q"
    by (simp add: p_def sampleProduct_def validProduct_def)
  have m: "(p, 1) \<in> set (recentLevels (DashboardPage numTextSample utcZone 1710500000000 ''u1'' [p]))"
    by (simp add: p_def DashboardPage_def Let_def stockLevel_def sampleProduct_def
        findManyRecent_def)
  have nz: "lowStockAt p \<noteq> Some 0"
    by (simp add: p_def sampleProduct_def)
  note th = stock_classification [OF v, where numText = numTextSample and z = utcZone and now = 1710500000000 and uid = "''u1''"]
  from th [THEN conjunct1, rule_format, OF m] nz
  have "0 < quantity p \<and> quantity p \<le> effectiveThreshold p"
    by simp
  moreover have "inStockCount (DashboardPage numTextSample utcZone 1710500000000 ''u1'' [p]) = 1"
    unfolding th [THEN conjunct2, THEN conjunct2, THEN conjunct2]
    by (simp add: p_def sampleProduct_def findMany_def)
  ultimately show ?thesis
    using v m nz unfolding p_def by simp
qed

section \<open>Properties of the server actions\<close>

text \<open>
  C7. \<open>createProduct\<close> never reads the \<open>lowStockAt\<close> field of the form: whatever the
  field holds, the action does what it does without the field. On a form with
  \<open>lowStockAt = 2\<close> it creates a row without a threshold. (The second part also shows
  the action ending in the \<open>catch\<close> block after the write.)
\<close>

theorem createProduct_ignores_lowStockAt:
  "createProduct safeOnly toNumber writeFails newId now uid (formData(''lowStockAt'' \<mapsto> v)) rows =
     createProduct safeOnly toNumber writeFails newId now uid (formData(''lowStockAt'' := None)) rows \<and>
   createProduct safeOnly sampleToNumber False ''p8'' 1710500000000 ''u1'' sampleForm [] =
     (Threw ''Failed to create product'',
      [\<lparr> productId = ''p8'', name = ''Widget'', sku = None, price = 10, quantity = 3,
          lowStockAt = None, createdAt = 1710500000000, userId = ''u1'' \<rparr>])"
  by (simp add: createProduct_def safeParse_def coerceNumber_def isInteger_def intCheck_def
      sampleToNumber_def sampleForm_def createRow_def Let_def)

text \<open>
  C8. \<open>deleteProduct\<close> returns normally and keeps exactly the rows that do not have
  both the submitted id and the current user as owner, in their order; the rows of the
  table are the kept ones and the matching ones. When no row matches, the table is
  unchanged and \<open>deleteMany\<close> reports 0 rows.
\<close>

theorem deleteProduct_scoped:
  "deleteProduct uid formData rows =
     (Returned,
      filter (\<lambda>p. \<not> (productId p = submittedId formData \<and> userId p = uid)) rows) \<and>
   mset rows =
     mset (snd (deleteProduct uid formData rows)) +
     mset (filter (\<lambda>p. productId p = submittedId formData \<and> userId p = uid) rows) \<and>
   ((\<forall>p\<in>set rows. \<not> (productId p = submittedId formData \<and> userId p = uid)) \<longrightarrow>
      deleteProduct uid formData rows = (Returned, rows) \<and>
      fst (deleteMany (\<lambda>p. productId p = submittedId formData \<and> userId p = uid) rows) = 0)"
proof (intro conjI impI)
  show d: "deleteProduct uid formData rows =
     (Returned,
      filter (\<lambda>p. \<not> (productId p = submittedId formData \<and> userId p = uid)) rows)"
    by (simp add: deleteProduct_def deleteMany_def Let_def)
  show "mset rows =
     mset (snd (deleteProduct uid formData rows)) +
     mset (filter (\<lambda>p. productId p = submittedId formData \<and> userId p = uid) rows)"
    unfolding d snd_conv by (induction rows) simp_all
  assume none: "\<forall>p\<in>set rows. \<not> (productId p = submittedId formData \<and> userId p = uid)"
  then have "filter (\<lambda>p. \<not> (productId p = submittedId formData \<and> userId p = uid)) rows = rows"
    by (intro filter_True) simp
  then show "deleteProduct uid formData rows = (Returned, rows)"
    unfolding d by simp
  have "filter (\<lambda>p. productId p = submittedId formData \<and> userId p = uid) rows = []"
    using none by (intro filter_False) simp
  then show "fst (deleteMany (\<lambda>p. productId p = submittedId formData \<and> userId p = uid) rows) = 0"
    by (simp add: deleteMany_def)
qed

theorem deleteProduct_scoped_witness:
  "deleteProduct ''u1'' [''id'' \<mapsto> ''p9''] sampleRows = (Returned, sampleRows) \<and>
   deleteProduct ''u2'' [''id'' \<mapsto> ''p1''] sampleRows = (Returned, sampleRows) \<and>
   deleteProduct ''u1'' [''id'' \<mapsto> ''p1''] sampleRows = (Returned, tl sampleRows)"
proof -
  have a: "\<forall>p\<in>set sampleRows. \<not> (productId p = submittedId [''id'' \<mapsto> ''p9''] \<and> userId p = ''u1'')"
    by (simp add: sampleRows_def sampleProduct_def submittedId_def)
  have b: "\<forall>p\<in>set sampleRows. \<not> (productId p = submittedId [''id'' \<mapsto> ''p1''] \<and> userId p = ''u2'')"
    by (simp add: sampleRows_def sampleProduct_def submittedId_def)
  have c: "filter (\<lambda>p. \<not> (productId p = submittedId [''id'' \<mapsto> ''p1''] \<and> userId p = ''u1''))
      sampleRows = tl sampleRows"
    by (simp add: sampleRows_def sampleProduct_def submittedId_def)
  have 1: "deleteProduct ''u1'' [''id'' \<mapsto> ''p9''] sampleRows = (Returned, sampleRows)"
    using deleteProduct_scoped [of "''u1''" "[''id'' \<mapsto> ''p9'']" sampleRows,
        THEN conjunct2, THEN conjunct2, THEN mp, OF a]
    by simp
  have 2: "deleteProduct ''u2'' [''id'' \<mapsto> ''p1''] sampleRows = (Returned, sampleRows)"
    using deleteProduct_scoped [of "''u2''" "[''id'' \<mapsto> ''p1'']" sampleRows,
        THEN conjunct2, THEN conjunct2, THEN mp, OF b]
    by simp
  have 3: "deleteProduct ''u1'' [''id'' \<mapsto> ''p1''] sampleRows = (Returned, tl sampleRows)"
    unfolding deleteProduct_scoped [of "''u1''" "[''id'' \<mapsto> ''p1'']" sampleRows,
        THEN conjunct1] c
    by (rule refl)
  show ?thesis
    using 1 2 3 by simp
qed

section \<open>Properties of the number functions\<close>

lemma floorLog2_bounds:
  fixes x :: rat
  assumes "0 < x"
  shows "2 powi (floorLog2 x) \<le> x \<and> x < 2 powi (floorLog2 x + 1)"
proof (cases "1 \<le> x")
  case True
  define n where "n = \<lfloor>x\<rfloor>"
  have n1: "1 \<le> n"
    using True by (simp add: n_def le_floor_iff)
  then have n0: "0 < n" by simp
  have b: "2 ^ nat (bitlen n - 1) \<le> n" "n < 2 ^ nat (bitlen n)"
    using bitlen_bounds [OF n0] by simp_all
  have bl: "1 \<le> bitlen n"
    using n0 bitlen_nonneg [of n] bitlen_eq_zero_iff [of n] by linarith
  have fl: "floorLog2 x = bitlen n - 1"
    using True by (simp add: floorLog2_def n_def)
  have "(2::rat) powi (bitlen n - 1) = 2 ^ nat (bitlen n - 1)"
    using bl by (simp add: power_int_def)
  also have "\<dots> = of_int (2 ^ nat (bitlen n - 1))"
    by simp
  also have "\<dots> \<le> of_int n"
    using b(1) by (simp only: of_int_le_iff)
  also have "\<dots> \<le> x"
    by (simp add: n_def)
  finally have lo: "2 powi (floorLog2 x) \<le> x"
    by (simp add: fl)
  have "n + 1 \<le> 2 ^ nat (bitlen n)"
    using b(2) by simp
  then have "(of_int (n + 1) :: rat) \<le> of_int (2 ^ nat (bitlen n))"
    by (simp only: of_int_le_iff)
  moreover have "x < of_int (n + 1)"
    unfolding n_def by linarith
  ultimately have "x < of_int (2 ^ nat (bitlen n))"
    by linarith
  also have "\<dots> = 2 powi (bitlen n)"
    using bl by (simp add: power_int_def)
  finally have "x < 2 powi (floorLog2 x + 1)"
    by (simp add: fl)
  with lo show ?thesis ..
next
  case False
  then have x1: "x < 1" by simp
  define z where "z = 1 / x"
  define m where "m = \<lceil>z\<rceil> - 1"
  have z1: "1 < z"
    using assms x1 by (simp add: z_def)
  then have "2 \<le> \<lceil>z\<rceil>"
    by (simp add: le_ceiling_iff)
  then have m0: "0 < m" by (simp add: m_def)
  have b: "2 ^ nat (bitlen m - 1) \<le> m" "m < 2 ^ nat (bitlen m)"
    using bitlen_bounds [OF m0] by simp_all
  have bl: "1 \<le> bitlen m"
    using m0 bitlen_nonneg [of m] bitlen_eq_zero_iff [of m] by linarith
  have fl: "floorLog2 x = - bitlen m"
    using False by (simp add: floorLog2_def m_def z_def)
  have mz: "of_int m < z" "z \<le> of_int m + 1"
    unfolding m_def by (simp, linarith) simp
  have "m + 1 \<le> 2 ^ nat (bitlen m)"
    using b(2) by simp
  then have "(of_int (m + 1) :: rat) \<le> of_int (2 ^ nat (bitlen m))"
    by (simp only: of_int_le_iff)
  with mz(2) have zle: "z \<le> 2 ^ nat (bitlen m)"
    by simp
  have "(2::rat) ^ nat (bitlen m - 1) = of_int (2 ^ nat (bitlen m - 1))"
    by simp
  also have "\<dots> \<le> of_int m"
    using b(1) by (simp only: of_int_le_iff)
  also have "\<dots> < z"
    by (rule mz(1))
  finally have zgt: "2 ^ nat (bitlen m - 1) < z" .
  have "1 / 2 ^ nat (bitlen m) \<le> 1 / z"
    using zle z1 by (intro divide_left_mono) simp_all
  moreover have "1 / z = x"
    using assms by (simp add: z_def)
  moreover have "(2::rat) powi (- bitlen m) = 1 / 2 ^ nat (bitlen m)"
    using bl by (simp add: power_int_def field_simps)
  ultimately have lo: "2 powi (floorLog2 x) \<le> x"
    by (simp add: fl)
  have "1 / z < 1 / 2 ^ nat (bitlen m - 1)"
    using zgt z1 by (intro divide_strict_left_mono) simp_all
  moreover have "(2::rat) powi (- bitlen m + 1) = 1 / 2 ^ nat (bitlen m - 1)"
  proof (cases "bitlen m = 1")
    case True
    then show ?thesis by simp
  next
    case False
    with bl have "- bitlen m + 1 < 0" by simp
    moreover have "nat (- (- bitlen m + 1)) = nat (bitlen m - 1)"
      by simp
    ultimately show ?thesis
      by (simp add: power_int_def field_simps)
  qed
  ultimately have "x < 2 powi (floorLog2 x + 1)"
    using \<open>1 / z = x\<close> by (simp add: fl)
  with lo show ?thesis ..
qed

lemma roundTiesToEven_error:
  "\<bar>of_int (roundTiesToEven y) - y\<bar> \<le> 1 / 2"
proof -
  define r where "r = y - of_int \<lfloor>y\<rfloor>"
  have r: "0 \<le> r" "r < 1"
    unfolding r_def by linarith+
  have y: "y = of_int \<lfloor>y\<rfloor> + r"
    by (simp add: r_def)
  consider "r < 1 / 2" | "1 / 2 < r" | "r = 1 / 2"
    by linarith
  then show ?thesis
  proof cases
    case 1
    then have "roundTiesToEven y = \<lfloor>y\<rfloor>"
      by (simp add: roundTiesToEven_def Let_def r_def)
    then have "of_int (roundTiesToEven y) - y = - r"
      by (simp add: r_def)
    with 1 r show ?thesis by simp
  next
    case 2
    then have "roundTiesToEven y = \<lfloor>y\<rfloor> + 1"
      by (simp add: roundTiesToEven_def Let_def r_def)
    then have "of_int (roundTiesToEven y) - y = 1 - r"
      by (simp add: r_def)
    with 2 r show ?thesis by simp
  next
    case 3
    then have "roundTiesToEven y = \<lfloor>y\<rfloor> \<or> roundTiesToEven y = \<lfloor>y\<rfloor> + 1"
      by (simp add: roundTiesToEven_def Let_def r_def)
    then have "of_int (roundTiesToEven y) - y = - r \<or> of_int (roundTiesToEven y) - y = 1 - r"
      by (auto simp: r_def)
    with 3 show ?thesis by auto
  qed
qed

lemma roundDouble_error:
  assumes "0 < x"
  shows "\<bar>roundDouble x - x\<bar> \<le> x / 2 ^ 53"
proof -
  define e where "e = floorLog2 x - 52"
  define p :: rat where "p = 2 powi e"
  define y where "y = x / p"
  have p0: "0 < p"
    by (simp add: p_def)
  have rd: "roundDouble x = of_int (roundTiesToEven y) * p"
    using assms by (simp add: roundDouble_def Let_def e_def p_def y_def)
  have xy: "x = y * p"
    using p0 by (simp add: y_def)
  have "of_int (roundTiesToEven y) * p - y * p = (of_int (roundTiesToEven y) - y) * p"
    by (simp add: algebra_simps)
  with xy have "roundDouble x - x = (of_int (roundTiesToEven y) - y) * p"
    unfolding rd by simp
  then have "\<bar>roundDouble x - x\<bar> = \<bar>of_int (roundTiesToEven y) - y\<bar> * p"
    using p0 by (simp add: abs_mult)
  also have "\<dots> \<le> 1 / 2 * p"
    using roundTiesToEven_error [of y] p0 by (intro mult_right_mono) simp_all
  finally have b: "\<bar>roundDouble x - x\<bar> \<le> 1 / 2 * p" .
  have pe: "p = 2 powi (floorLog2 x) / 2 ^ 52"
    unfolding p_def e_def by (simp add: power_int_diff)
  have "1 / 2 * p = (2::rat) powi (floorLog2 x) / 2 ^ 53"
    unfolding pe by simp
  also have "\<dots> \<le> x / 2 ^ 53"
    using floorLog2_bounds [OF assms] by (intro divide_right_mono) simp_all
  finally show ?thesis
    using b by linarith
qed

lemma roundDouble_zero: "roundDouble 0 = 0"
  by (simp add: roundDouble_def)

lemma percent_error:
  assumes "0 < c" and "c \<le> t"
  shows "\<bar>jsMul (jsDiv (of_nat c) (of_nat t)) 100 - 100 * of_nat c / of_nat t\<bar>
           \<le> 300 / 2 ^ 53"
proof -
  define X :: rat where "X = of_nat c / of_nat t"
  define q where "q = roundDouble X"
  define p where "p = roundDouble (q * 100)"
  have t0: "0 < t" using assms by simp
  have X0: "0 < X" and X1: "X \<le> 1"
    using assms t0 by (simp_all add: X_def)
  have eq: "\<bar>q - X\<bar> \<le> X / 2 ^ 53"
    unfolding q_def by (rule roundDouble_error [OF X0])
  have "X / 2 ^ 53 \<le> 1 / 2 ^ 53"
    using X1 by (intro divide_right_mono) simp_all
  with eq have eq1: "\<bar>q - X\<bar> \<le> 1 / 2 ^ 53"
    by linarith
  have "X / 2 ^ 53 < X"
    using X0 by (simp add: field_simps)
  with eq have q0: "0 < q"
    by linarith
  have "(1::rat) / 2 ^ 53 \<le> 1"
    by simp
  with eq1 X1 have q2: "q \<le> 2"
    by linarith
  have "\<bar>p - q * 100\<bar> \<le> q * 100 / 2 ^ 53"
    unfolding p_def using q0 by (intro roundDouble_error) simp
  also have "\<dots> \<le> 200 / 2 ^ 53"
    using q2 by (intro divide_right_mono) simp_all
  finally have ep: "\<bar>p - q * 100\<bar> \<le> 200 / 2 ^ 53" .
  have "\<bar>p - 100 * X\<bar> \<le> \<bar>p - q * 100\<bar> + 100 * \<bar>q - X\<bar>"
    by (simp add: abs_le_iff abs_if)
  also have "\<dots> \<le> 200 / 2 ^ 53 + 100 * (1 / 2 ^ 53)"
    using ep eq1 by (intro add_mono mult_left_mono) simp_all
  also have "\<dots> = 300 / 2 ^ 53"
    by simp
  finally show ?thesis
    by (simp add: p_def q_def X_def jsMul_def jsDiv_def)
qed

lemma percent_round:
  assumes "c \<le> t" and "0 < t" and "t < 2 ^ 43"
  shows "(\<not> 2 * int t dvd 200 * int c + int t \<longrightarrow>
            Math_round (jsMul (jsDiv (of_nat c) (of_nat t)) 100) = exactPercent c t) \<and>
         (Math_round (jsMul (jsDiv (of_nat c) (of_nat t)) 100) = exactPercent c t \<or>
          Math_round (jsMul (jsDiv (of_nat c) (of_nat t)) 100) = exactPercent c t - 1)"
proof (cases "c = 0")
  case True
  have "exactPercent 0 t = 0"
    using assms(2) by (simp add: exactPercent_def)
  moreover have "\<lfloor>(1::rat) / 2\<rfloor> = 0"
    by (rule floor_unique) simp_all
  then have "Math_round (jsMul (jsDiv 0 (of_nat t)) 100) = 0"
    by (simp add: jsDiv_def jsMul_def roundDouble_zero Math_round_def)
  ultimately show ?thesis
    using True by simp
next
  case False
  then have c0: "0 < c" by simp
  define P where "P = jsMul (jsDiv (of_nat c) (of_nat t)) 100"
  define N where "N = 200 * int c + int t"
  define D where "D = 2 * int t"
  define k where "k = N div D"
  define r where "r = N mod D"
  define dl where "dl = P - 100 * of_nat c / of_nat t"
  have D0: "0 < D"
    using assms(2) by (simp add: D_def)
  have Dr0: "0 < (of_int D :: rat)"
    using D0 by simp
  have r: "0 \<le> r" "r < D"
    using D0 by (simp_all add: r_def)
  have N: "N = k * D + r"
    by (simp add: k_def r_def)
  have ex: "exactPercent c t = k"
    using assms(2) by (simp add: exactPercent_def k_def N_def D_def)
  have "(100 * of_nat c / of_nat t + 1 / 2 :: rat) = of_int N / of_int D"
    using assms(2) by (simp add: N_def D_def field_simps)
  also have "\<dots> = of_int k + of_int r / of_int D"
    using Dr0 unfolding N by (simp add: field_simps)
  finally have "(100 * of_nat c / of_nat t + 1 / 2 :: rat) = of_int k + of_int r / of_int D" .
  moreover have "P + 1 / 2 = (100 * of_nat c / of_nat t + 1 / 2) + dl"
    unfolding dl_def by linarith
  ultimately have v: "P + 1 / 2 = of_int k + of_int r / of_int D + dl"
    by (simp only:)
  have "\<bar>dl\<bar> \<le> 300 / 2 ^ 53"
    unfolding dl_def P_def by (rule percent_error [OF c0 assms(1)])
  moreover have "(300 / 2 ^ 53 :: rat) < 1 / of_int D"
  proof -
    have "int t < 2 ^ 43"
      using assms(3) by (metis of_nat_less_numeral_power_cancel_iff)
    then have "D * 300 < 2 ^ 53"
      by (simp add: D_def)
    then have "(of_int (D * 300) :: rat) < of_int (2 ^ 53)"
      by (simp only: of_int_less_iff)
    then have "(of_int D :: rat) * 300 < 2 ^ 53"
      by simp
    with Dr0 show ?thesis
      by (simp add: field_simps)
  qed
  ultimately have dl: "\<bar>dl\<bar> < 1 / of_int D"
    by linarith
  have half: "(1 / of_int D :: rat) \<le> 1 / 2"
  proof -
    have "2 \<le> D" using assms(2) by (simp add: D_def)
    then have "(2::rat) \<le> of_int D" by simp
    then show ?thesis by (simp add: field_simps)
  qed
  have mr: "Math_round P = \<lfloor>P + 1 / 2\<rfloor>"
    by (simp add: Math_round_def)
  have notie: "Math_round P = k" if "r \<noteq> 0"
  proof -
    from that r have "1 \<le> r" "r \<le> D - 1"
      by simp_all
    then have "(1::rat) \<le> of_int r" "(of_int r :: rat) \<le> of_int D - 1"
      by (simp, metis of_int_le_iff of_int_diff of_int_1)
    then have "(1 / of_int D :: rat) \<le> of_int r / of_int D"
      "(of_int r / of_int D :: rat) \<le> 1 - 1 / of_int D"
      using Dr0 by (simp_all add: field_simps)
    with dl have "of_int k \<le> P + 1 / 2" "P + 1 / 2 < of_int k + 1"
      unfolding v by linarith+
    then show ?thesis
      unfolding mr by (intro floor_unique) simp_all
  qed
  have tie: "Math_round P = k \<or> Math_round P = k - 1" if "r = 0"
  proof (cases "0 \<le> dl")
    case True
    with dl half that have "of_int k \<le> P + 1 / 2" "P + 1 / 2 < of_int k + 1"
      unfolding v by simp_all
    then have "Math_round P = k"
      unfolding mr by (intro floor_unique) simp_all
    then show ?thesis ..
  next
    case False
    with dl half that have "of_int (k - 1) \<le> P + 1 / 2" "P + 1 / 2 < of_int (k - 1) + 1"
      unfolding v by simp_all
    then have "Math_round P = k - 1"
      unfolding mr by (intro floor_unique)
    then show ?thesis ..
  qed
  have dv: "D dvd N \<longleftrightarrow> r = 0"
    by (simp add: r_def dvd_eq_mod_eq_0)
  show ?thesis
    using notie tie dv unfolding ex P_def [symmetric] N_def [symmetric] D_def [symmetric]
    by blast
qed

section \<open>Stock percentages\<close>

lemma dashboard_percentages:
  "totalProducts (DashboardPage numText z now uid rows) =
     length (findMany (\<lambda>p. userId p = uid) rows)"
  "inStockCount (DashboardPage numText z now uid rows) \<le> totalProducts (DashboardPage numText z now uid rows)"
  "lowStockCount (DashboardPage numText z now uid rows) \<le> totalProducts (DashboardPage numText z now uid rows)"
  "outOfStockCount (DashboardPage numText z now uid rows) \<le> totalProducts (DashboardPage numText z now uid rows)"
  "inStockPercentage (DashboardPage numText z now uid rows) =
     (if 0 < totalProducts (DashboardPage numText z now uid rows)
      then Math_round (jsMul (jsDiv (of_nat (inStockCount (DashboardPage numText z now uid rows)))
             (of_nat (totalProducts (DashboardPage numText z now uid rows)))) 100)
      else 0)"
  "lowStockPercentage (DashboardPage numText z now uid rows) =
     (if 0 < totalProducts (DashboardPage numText z now uid rows)
      then Math_round (jsMul (jsDiv (of_nat (lowStockCount (DashboardPage numText z now uid rows)))
             (of_nat (totalProducts (DashboardPage numText z now uid rows)))) 100)
      else 0)"
  "outOfStockPercentage (DashboardPage numText z now uid rows) =
     (if 0 < totalProducts (DashboardPage numText z now uid rows)
      then Math_round (jsMul (jsDiv (of_nat (outOfStockCount (DashboardPage numText z now uid rows)))
             (of_nat (totalProducts (DashboardPage numText z now uid rows)))) 100)
      else 0)"
  by (simp_all add: DashboardPage_def Let_def countWhere_def findMany_def del: filter_filter)

text \<open>
  C6, as stated, fails: with 23 of 40 products in stock the exact fraction is 57.5,
  which rounds half up to 58, but the double-precision product \<open>(23 / 40) * 100\<close> is
  just below 57.5 and \<open>Math.round\<close> gives 57.
\<close>

theorem stock_percentages_counterexample:
  "totalProducts (DashboardPage numTextSample utcZone 0 ''u1'' fortyRows) = 40 \<and>
   inStockCount (DashboardPage numTextSample utcZone 0 ''u1'' fortyRows) = 23 \<and>
   inStockPercentage (DashboardPage numTextSample utcZone 0 ''u1'' fortyRows) = 57 \<and>
   exactPercent 23 40 = 58"
proof -
  have t: "totalProducts (DashboardPage numTextSample utcZone 0 ''u1'' fortyRows) = 40"
    by (simp add: DashboardPage_def Let_def countWhere_def fortyRows_def sampleProduct_def
        filter_map comp_def)
  have c: "inStockCount (DashboardPage numTextSample utcZone 0 ''u1'' fortyRows) = 23"
    by (simp add: DashboardPage_def Let_def findMany_def fortyRows_def sampleProduct_def
        filter_map comp_def)
  have r: "Math_round (jsMul (jsDiv 23 40) 100) = 57"
    by code_simp
  have p: "inStockPercentage (DashboardPage numTextSample utcZone 0 ''u1'' fortyRows) = 57"
    unfolding dashboard_percentages(5) t c using r by simp
  have e: "exactPercent 23 40 = 58"
    by (simp add: exactPercent_def)
  from t c p e show ?thesis
    by simp
qed

text \<open>
  C6, amended. With no products all three percentages are 0. With a positive total
  (below \<open>2\<^sup>4\<^sup>3\<close>) each percentage is \<open>Math.round\<close> of the double-precision value
  of \<open>(count / total) * 100\<close>, computed from its own count; it is the exact fraction
  rounded half up whenever the exact fraction is not half-way between two integers, and
  at such a tie it is that value or one less.
\<close>

theorem stock_percentages:
  "let d = DashboardPage numText z now uid rows; total = totalProducts d in
   (total = 0 \<longrightarrow>
      inStockPercentage d = 0 \<and> lowStockPercentage d = 0 \<and> outOfStockPercentage d = 0) \<and>
   (0 < total \<and> total < 2 ^ 43 \<longrightarrow>
      (\<forall>(count, pct)\<in>{(inStockCount d, inStockPercentage d),
                        (lowStockCount d, lowStockPercentage d),
                        (outOfStockCount d, outOfStockPercentage d)}.
         pct = Math_round (jsMul (jsDiv (of_nat count) (of_nat total)) 100) \<and>
         (\<not> 2 * int total dvd 200 * int count + int total \<longrightarrow>
            pct = exactPercent count total) \<and>
         (pct = exactPercent count total \<or> pct = exactPercent count total - 1)))"
proof -
  define d where "d = DashboardPage numText z now uid rows"
  define total where "total = totalProducts d"
  note f = dashboard_percentages [of numText z now uid rows, folded d_def, folded total_def]
  have z: "inStockPercentage d = 0 \<and> lowStockPercentage d = 0 \<and> outOfStockPercentage d = 0"
    if "total = 0"
    using that by (simp add: f(5,6,7))
  have pos: "pct = Math_round (jsMul (jsDiv (of_nat count) (of_nat total)) 100) \<and>
         (\<not> 2 * int total dvd 200 * int count + int total \<longrightarrow>
            pct = exactPercent count total) \<and>
         (pct = exactPercent count total \<or> pct = exactPercent count total - 1)"
    if t: "0 < total" "total < 2 ^ 43"
      and le: "count \<le> total"
      and eq: "pct = (if 0 < total
        then Math_round (jsMul (jsDiv (of_nat count) (of_nat total)) 100) else 0)"
    for count pct
  proof -
    have "pct = Math_round (jsMul (jsDiv (of_nat count) (of_nat total)) 100)"
      using eq t(1) by simp
    then show ?thesis
      using percent_round [OF le t] by simp
  qed
  have "\<forall>(count, pct)\<in>{(inStockCount d, inStockPercentage d),
                        (lowStockCount d, lowStockPercentage d),
                        (outOfStockCount d, outOfStockPercentage d)}.
         pct = Math_round (jsMul (jsDiv (of_nat count) (of_nat total)) 100) \<and>
         (\<not> 2 * int total dvd 200 * int count + int total \<longrightarrow>
            pct = exactPercent count total) \<and>
         (pct = exactPercent count total \<or> pct = exactPercent count total - 1)"
    if t: "0 < total \<and> total < 2 ^ 43"
  proof -
    from t have t1: "0 < total" and t2: "total < 2 ^ 43"
      by simp_all
    note a = pos [OF t1 t2 f(2) f(5)]
    note b = pos [OF t1 t2 f(3) f(6)]
    note c = pos [OF t1 t2 f(4) f(7)]
    from a b c show ?thesis
      by blast
  qed
  with z show ?thesis
    unfolding Let_def d_def [symmetric] total_def [symmetric] by blast
qed

lemma sample_counts:
  "totalProducts (DashboardPage numTextSample utcZone 1710500000000 ''u1'' sampleRows) = 7"
  "inStockCount (DashboardPage numTextSample utcZone 1710500000000 ''u1'' sampleRows) = 4"
  "lowStockCount (DashboardPage numTextSample utcZone 1710500000000 ''u1'' sampleRows) = 2"
  "outOfStockCount (DashboardPage numTextSample utcZone 1710500000000 ''u1'' sampleRows) = 1"
  by (simp_all add: DashboardPage_def Let_def countWhere_def findMany_def sampleRows_def
      sampleProduct_def)

theorem stock_percentages_witness:
  "(0::nat) < 7 \<and> (7::nat) < 2 ^ 43 \<and>
   \<not> 2 * int 7 dvd 200 * int 4 + int 7 \<and>
   \<not> 2 * int 7 dvd 200 * int 2 + int 7 \<and>
   \<not> 2 * int 7 dvd 200 * int 1 + int 7 \<and>
   totalProducts (DashboardPage numTextSample utcZone 1710500000000 ''u1'' sampleRows) = 7 \<and>
   outOfStockPercentage (DashboardPage numTextSample utcZone 1710500000000 ''u1'' sampleRows) = 14 \<and>
   lowStockPercentage (DashboardPage numTextSample utcZone 1710500000000 ''u1'' sampleRows) = 29 \<and>
   inStockPercentage (DashboardPage numTextSample utcZone 1710500000000 ''u1'' sampleRows) = 57 \<and>
   totalProducts (DashboardPage numTextSample utcZone 1710500000000 ''u1'' []) = 0 \<and>
   inStockPercentage (DashboardPage numTextSample utcZone 1710500000000 ''u1'' []) = 0 \<and>
   lowStockPercentage (DashboardPage numTextSample utcZone 1710500000000 ''u1'' []) = 0 \<and>
   outOfStockPercentage (DashboardPage numTextSample utcZone 1710500000000 ''u1'' []) = 0"
proof -
  define d where "d = DashboardPage numTextSample utcZone 1710500000000 ''u1'' sampleRows"
  define d0 where "d0 = DashboardPage numTextSample utcZone 1710500000000 ''u1'' []"
  note c = sample_counts [folded d_def]
  note th = stock_percentages [of numTextSample utcZone 1710500000000 "''u1''" sampleRows, unfolded Let_def,
      folded d_def, unfolded c]
  note th0 = stock_percentages [of numTextSample utcZone 1710500000000 "''u1''" "[]", unfolded Let_def,
      folded d0_def]
  have t0: "totalProducts d0 = 0"
    by (simp add: d0_def DashboardPage_def Let_def countWhere_def)
  from th0 [THEN conjunct1, THEN mp, OF t0]
  have z: "inStockPercentage d0 = 0 \<and> lowStockPercentage d0 = 0 \<and> outOfStockPercentage d0 = 0" .
  have r: "(0::nat) < 7 \<and> (7::nat) < 2 ^ 43"
    by simp
  note b = th [THEN conjunct2, THEN mp, OF r]
  have i: "inStockPercentage d = 57"
    using b [THEN bspec, of "(4, inStockPercentage d)"]
    by (simp add: exactPercent_def)
  have l: "lowStockPercentage d = 29"
    using b [THEN bspec, of "(2, lowStockPercentage d)"]
    by (simp add: exactPercent_def)
  have o: "outOfStockPercentage d = 14"
    using b [THEN bspec, of "(1, outOfStockPercentage d)"]
    by (simp add: exactPercent_def)
  show ?thesis
    using i l o z t0 c(1) unfolding d_def d0_def by simp
qed

section \<open>Properties of the navigation URL\<close>

lemma hex_digits_all:
  "\<forall>k\<in>set [0..<16]. hexVal (hexChar k) = Some k \<and> hexChar k \<noteq> CHR ''+'' \<and> urlSafe (hexChar k)"
  by code_simp

lemma hexChar_mod: "hexChar (d mod 16) = hexChar d"
  by (simp add: hexChar_def)

lemma hexVal_hexChar:
  assumes "d < 16"
  shows "hexVal (hexChar d) = Some d"
  using hex_digits_all assms by simp

lemma hexChar_urlSafe: "urlSafe (hexChar d)"
proof -
  have "d mod 16 \<in> set [0..<16]" by simp
  with hex_digits_all have "urlSafe (hexChar (d mod 16))" by blast
  then show ?thesis by (simp only: hexChar_mod)
qed

lemma urlSafe_not_special:
  assumes "urlSafe c"
  shows "c \<noteq> CHR ''%''" "c \<noteq> CHR ''+''" "c \<noteq> CHR ''&''" "c \<noteq> CHR ''=''"
    "c \<noteq> CHR ''#''" "c \<noteq> CHR ''?''"
  using assms by (auto simp: urlSafe_def)

lemma of_char_div_16: "(of_char c :: nat) div 16 < 16"
proof -
  have "(of_char c :: nat) < 16 * 16"
    by simp
  then show ?thesis
    by (simp only: less_mult_imp_div_less)
qed

lemma decode_encodeByte:
  "percentDecode (plusToSpace (encodeByte c @ s)) = c # percentDecode (plusToSpace s)"
proof (cases "c = CHR '' ''")
  case True
  then show ?thesis
    by (simp add: encodeByte_def plusToSpace_def)
next
  case False
  show ?thesis
  proof (cases "urlSafe c")
    case True
    with False urlSafe_not_special [OF True] show ?thesis
      by (simp add: encodeByte_def plusToSpace_def)
  next
    case unsafe: False
    define h where "h = hexChar (of_char c div 16)"
    define l where "l = hexChar (of_char c mod 16)"
    have hp: "h \<noteq> CHR ''+''" "l \<noteq> CHR ''+''"
      using urlSafe_not_special(2) [OF hexChar_urlSafe] by (simp_all add: h_def l_def)
    have hv: "hexVal h = Some (of_char c div 16)" "hexVal l = Some (of_char c mod 16)"
      unfolding h_def l_def by (simp_all add: hexVal_hexChar of_char_div_16)
    have "encodeByte c = [CHR ''%'', h, l]"
      using False unsafe by (simp add: encodeByte_def h_def l_def)
    then show ?thesis
      using hp hv by (simp add: plusToSpace_def)
  qed
qed

lemma urldecode_urlencode: "urldecode (urlencode s) = s"
proof (induction s)
  case Nil
  then show ?case
    by (simp add: urldecode_def urlencode_def plusToSpace_def)
next
  case (Cons c s)
  have "urlencode (c # s) = encodeByte c @ urlencode s"
    by (simp add: urlencode_def)
  then show ?case
    using Cons.IH by (simp add: urldecode_def decode_encodeByte)
qed

lemma encodeByte_chars:
  "x \<in> set (encodeByte c) \<Longrightarrow> x \<noteq> CHR ''&'' \<and> x \<noteq> CHR ''='' \<and> x \<noteq> CHR ''#''"
  using urlSafe_not_special [OF hexChar_urlSafe] urlSafe_not_special [of c]
  by (auto simp: encodeByte_def split: if_splits)

lemma urlencode_chars:
  "x \<in> set (urlencode s) \<Longrightarrow> x \<noteq> CHR ''&'' \<and> x \<noteq> CHR ''='' \<and> x \<noteq> CHR ''#''"
  unfolding urlencode_def using encodeByte_chars by auto

lemma splitOn_single: "sep \<notin> set p \<Longrightarrow> splitOn sep p = [p]"
  by (induction p) auto

lemma splitOn_append:
  "sep \<notin> set p \<Longrightarrow> splitOn sep (p @ sep # s) = p # splitOn sep s"
  by (induction p) auto

lemma splitOn_joinWith:
  assumes "ps \<noteq> []" and "\<forall>p\<in>set ps. sep \<notin> set p"
  shows "splitOn sep (joinWith sep ps) = ps"
  using assms
proof (induction sep ps rule: joinWith.induct)
  case (1 sep)
  then show ?case by simp
next
  case (2 sep s)
  then show ?case by (simp add: splitOn_single)
next
  case (3 sep s t ss)
  then show ?case by (simp add: splitOn_append)
qed

lemma set_joinWith: "set (joinWith sep ps) \<subseteq> insert sep (\<Union> (set ` set ps))"
  by (induction sep ps rule: joinWith.induct) auto

lemma takeWhile_until:
  "sep \<notin> set k \<Longrightarrow> takeWhile (\<lambda>c. c \<noteq> sep) (k @ sep # v) = k"
  by (induction k) auto

lemma dropWhile_until:
  "sep \<notin> set k \<Longrightarrow> dropWhile (\<lambda>c. c \<noteq> sep) (k @ sep # v) = sep # v"
  by (induction k) auto

lemma splitFirst_append:
  "sep \<notin> set k \<Longrightarrow> splitFirst sep (k @ sep # v) = (k, v)"
  by (simp add: splitFirst_def takeWhile_until dropWhile_until)

lemma parse_piece:
  "(case splitFirst CHR ''='' (urlencode k @ CHR ''='' # urlencode v) of
      (a, b) \<Rightarrow> (urldecode a, urldecode b)) = (k, v)"
proof -
  have "CHR ''='' \<notin> set (urlencode k)"
    using urlencode_chars [of "CHR ''=''" k] by blast
  then show ?thesis
    by (simp add: splitFirst_append urldecode_urlencode)
qed

lemma parseQuery_toString: "parseQuery (toString ps) = ps"
proof (cases "ps = []")
  case True
  then show ?thesis
    by (simp add: parseQuery_def toString_def)
next
  case False
  define pieces where "pieces = map (\<lambda>(k, v). urlencode k @ CHR ''='' # urlencode v) ps"
  have ne: "pieces \<noteq> []"
    using False by (simp add: pieces_def)
  have amp: "\<forall>p\<in>set pieces. CHR ''&'' \<notin> set p"
    using urlencode_chars [of "CHR ''&''"] by (auto simp: pieces_def)
  have nonempty: "filter (\<lambda>piece. piece \<noteq> []) pieces = pieces"
    by (rule filter_True) (auto simp: pieces_def)
  have "splitOn CHR ''&'' (toString ps) = pieces"
    unfolding toString_def pieces_def [symmetric] by (rule splitOn_joinWith [OF ne amp])
  then have "parseQuery (toString ps) =
      map (\<lambda>piece. case splitFirst CHR ''='' piece of (k, v) \<Rightarrow> (urldecode k, urldecode v))
        pieces"
    by (simp add: parseQuery_def nonempty)
  also have "\<dots> = map (\<lambda>(k, v). (k, v)) ps"
    unfolding pieces_def map_map
    by (rule map_cong) (auto simp: parse_piece)
  finally show ?thesis
    by simp
qed

lemma toString_no_hash: "CHR ''#'' \<notin> set (toString ps)"
proof
  assume "CHR ''#'' \<in> set (toString ps)"
  then have "CHR ''#'' \<in> insert CHR ''&''
      (\<Union> (set ` set (map (\<lambda>(k, v). urlencode k @ CHR ''='' # urlencode v) ps)))"
    unfolding toString_def using set_joinWith by blast
  then obtain k v where "CHR ''#'' \<in> set (urlencode k @ CHR ''='' # urlencode v)"
    by auto
  then show False
    using urlencode_chars [of "CHR ''#''"] by auto
qed

lemma queryOf_append:
  assumes "CHR ''?'' \<notin> set b" and "CHR ''#'' \<notin> set b" and "CHR ''#'' \<notin> set q"
  shows "queryOf (b @ CHR ''?'' # q) = q"
proof -
  have "\<forall>c\<in>set (b @ CHR ''?'' # q). c \<noteq> CHR ''#''"
    using assms by auto
  then have t: "takeWhile (\<lambda>c. c \<noteq> CHR ''#'') (b @ CHR ''?'' # q) = b @ CHR ''?'' # q"
    by (simp only: takeWhile_eq_all_conv [THEN iffD2])
  have d: "dropWhile (\<lambda>c. c \<noteq> CHR ''?'') (b @ CHR ''?'' # q) = CHR ''?'' # q"
    using assms(1) by (rule dropWhile_until)
  show ?thesis
    unfolding queryOf_def t d by simp
qed

lemma digits_all:
  "\<forall>k\<in>set [0..<10]. digitVal (digitChar k) = Some k \<and> digitChar k \<noteq> CHR ''-''"
  by code_simp

lemma digitChar_mod: "digitChar (d mod 10) = digitChar d"
  by (simp add: digitChar_def)

lemma digitVal_digitChar: "digitVal (digitChar d) = Some (d mod 10)"
proof -
  have "d mod 10 \<in> set [0..<10]" by simp
  with digits_all have "digitVal (digitChar (d mod 10)) = Some (d mod 10)" by blast
  then show ?thesis by (simp only: digitChar_mod)
qed

lemma digitChar_not_minus: "digitChar d \<noteq> CHR ''-''"
proof -
  have "d mod 10 \<in> set [0..<10]" by simp
  with digits_all have "digitChar (d mod 10) \<noteq> CHR ''-''" by blast
  then show ?thesis unfolding digitChar_mod .
qed

lemma digitsValue_append:
  "digitsValue a (xs @ [c]) =
     (case digitsValue a xs of
        None \<Rightarrow> None
      | Some v \<Rightarrow> (case digitVal c of None \<Rightarrow> None | Some d \<Rightarrow> Some (10 * v + d)))"
  by (induction xs arbitrary: a) (simp_all split: option.splits)

lemma digitsValue_natDigits: "digitsValue 0 (natDigits n) = Some n"
proof (induction n rule: natDigits.induct)
  case (1 n)
  show ?case
  proof (cases "n < 10")
    case True
    then have "natDigits n = [digitChar n]"
      by (subst natDigits.simps) simp
    with True show ?thesis
      by (simp add: digitVal_digitChar)
  next
    case False
    then have "natDigits n = natDigits (n div 10) @ [digitChar n]"
      by (subst natDigits.simps) simp
    with 1 [OF False] show ?thesis
      by (simp add: digitsValue_append digitVal_digitChar)
  qed
qed

lemma natDigits_head: "\<exists>d cs. natDigits n = digitChar d # cs"
proof (induction n rule: natDigits.induct)
  case (1 n)
  show ?case
  proof (cases "n < 10")
    case True
    then have "natDigits n = [digitChar n]"
      by (subst natDigits.simps) simp
    then show ?thesis
      by blast
  next
    case False
    then have "natDigits n = natDigits (n div 10) @ [digitChar n]"
      by (subst natDigits.simps) simp
    with 1 [OF False] show ?thesis
      by auto
  qed
qed

lemma decimalValue_natDigits: "decimalValue (natDigits n) = Some (int n)"
proof -
  obtain d cs where h: "natDigits n = digitChar d # cs"
    using natDigits_head by blast
  have ne: "digitChar d \<noteq> CHR ''-''"
    by (rule digitChar_not_minus)
  have "decimalValue (digitChar d # cs) = map_option int (digitsValue 0 (digitChar d # cs))"
    by (simp add: decimalValue_def ne)
  then have "decimalValue (natDigits n) = map_option int (digitsValue 0 (natDigits n))"
    by (simp only: h)
  then show ?thesis
    by (simp add: digitsValue_natDigits)
qed

lemma decimalValue_String:
  assumes "\<bar>i\<bar> < 2 ^ 53"
  shows "decimalValue (String numText (Num (of_int i))) = Some i"
proof (cases "i < 0")
  case True
  have "natDigits (nat (- i)) \<noteq> []"
    using natDigits_head [of "nat (- i)"] by auto
  then have "decimalValue (CHR ''-'' # natDigits (nat (- i))) =
      map_option (\<lambda>n. - int n) (digitsValue 0 (natDigits (nat (- i))))"
    by (simp add: decimalValue_def)
  with True show ?thesis
    by (simp add: String_int [OF assms] digitsValue_natDigits)
next
  case False
  then show ?thesis
    by (simp add: String_int [OF assms] decimalValue_natDigits)
qed

text \<open>
  C9. For a base URL without \<open>?\<close> and \<open>#\<close>, and any number \<open>n\<close>, the parameters read
  back from the query string of the URL that \<open>getPageUrl\<close> builds are the caller's
  entries with \<open>page\<close> set: \<open>page\<close> has the text of \<open>n\<close> as its value, which for an
  integer \<open>n\<close> below \<open>2\<^sup>5\<^sup>3\<close> in absolute value is a decimal numeral that denotes \<open>n\<close>;
  every other name has the value the caller supplied (and no value when the caller
  supplied none).
\<close>

theorem getPageUrl_query_params:
  assumes "CHR ''?'' \<notin> set baseUrl" and "CHR ''#'' \<notin> set baseUrl"
  shows "parseQuery (queryOf (getPageUrl numText baseUrl searchParams n)) =
           pageParams numText searchParams n \<and>
         map_of (parseQuery (queryOf (getPageUrl numText baseUrl searchParams n))) ''page'' =
           Some (String numText n) \<and>
         (\<forall>i. n = Num (of_int i) \<and> \<bar>i\<bar> < 2 ^ 53 \<longrightarrow>
            Option.bind
              (map_of (parseQuery (queryOf (getPageUrl numText baseUrl searchParams n))) ''page'')
              decimalValue = Some i) \<and>
         (\<forall>k. k \<noteq> ''page'' \<longrightarrow>
            map_of (parseQuery (queryOf (getPageUrl numText baseUrl searchParams n))) k =
              map_of searchParams k)"
proof -
  have "queryOf (getPageUrl numText baseUrl searchParams n) =
      toString (pageParams numText searchParams n)"
    unfolding getPageUrl_def by (rule queryOf_append [OF assms toString_no_hash])
  then have p: "parseQuery (queryOf (getPageUrl numText baseUrl searchParams n)) =
      pageParams numText searchParams n"
    by (simp add: parseQuery_toString)
  have v: "map_of (pageParams numText searchParams n) ''page'' = Some (String numText n)"
    by (simp add: pageParams_def update_conv')
  have d: "Option.bind (map_of (pageParams numText searchParams n) ''page'') decimalValue = Some i"
    if "n = Num (of_int i) \<and> \<bar>i\<bar> < 2 ^ 53" for i
    unfolding v using that by (simp add: decimalValue_String)
  have k: "map_of (pageParams numText searchParams n) k = map_of searchParams k"
    if "k \<noteq> ''page''" for k
    using that by (simp add: pageParams_def update_conv')
  show ?thesis
    unfolding p using v d k by blast
qed

theorem getPageUrl_query_params_witness:
  "CHR ''?'' \<notin> set ''/inventory'' \<and> CHR ''#'' \<notin> set ''/inventory'' \<and>
   getPageUrl numTextSample ''/inventory'' [(''q'', ''a b&c''), (''pageSize'', ''5'')] (Num 12) =
     ''/inventory?q=a+b%26c&pageSize=5&page=12'' \<and>
   parseQuery (queryOf ''/inventory?q=a+b%26c&pageSize=5&page=12'') =
     [(''q'', ''a b&c''), (''pageSize'', ''5''), (''page'', ''12'')] \<and>
   map_of (parseQuery (queryOf ''/inventory?q=a+b%26c&pageSize=5&page=12'')) ''page'' =
     Some ''12'' \<and>
   Num 12 = Num (of_int 12) \<and> \<bar>12 :: int\<bar> < 2 ^ 53 \<and>
   Option.bind (map_of (parseQuery (queryOf ''/inventory?q=a+b%26c&pageSize=5&page=12'')) ''page'')
     decimalValue = Some 12 \<and>
   map_of (parseQuery (queryOf ''/inventory?q=a+b%26c&pageSize=5&page=12'')) ''q'' =
     Some ''a b&c''"
proof -
  have b: "CHR ''?'' \<notin> set ''/inventory''" "CHR ''#'' \<notin> set ''/inventory''"
    by simp_all
  have s: "String numTextSample (Num 12) = ''12''"
    by code_simp
  have u: "getPageUrl numTextSample ''/inventory'' [(''q'', ''a b&c''), (''pageSize'', ''5'')]
      (Num 12) = ''/inventory?q=a+b%26c&pageSize=5&page=12''"
    by code_simp
  have p: "pageParams numTextSample [(''q'', ''a b&c''), (''pageSize'', ''5'')] (Num 12) =
      [(''q'', ''a b&c''), (''pageSize'', ''5''), (''page'', ''12'')]"
    by (simp add: pageParams_def s)
  have n: "Num 12 = Num (of_int 12) \<and> \<bar>12 :: int\<bar> < 2 ^ 53"
    by simp
  note th = getPageUrl_query_params [OF b,
      where numText = numTextSample and searchParams = "[(''q'', ''a b&c''), (''pageSize'', ''5'')]"
        and n = "Num 12", unfolded u p s]
  have r: "Option.bind
      (map_of (parseQuery (queryOf ''/inventory?q=a+b%26c&pageSize=5&page=12'')) ''page'')
      decimalValue = Some 12"
    using th [THEN conjunct2, THEN conjunct2, THEN conjunct1, rule_format, OF n] .
  have q: "map_of (parseQuery (queryOf ''/inventory?q=a+b%26c&pageSize=5&page=12'')) ''q'' =
      Some ''a b&c''"
    using th [THEN conjunct2, THEN conjunct2, THEN conjunct2, rule_format, of "''q''"] by simp
  show ?thesis
    using b u th [THEN conjunct1] th [THEN conjunct2, THEN conjunct1] r q by simp
qed

end
